theory Spec2Isabelle
  imports Main "HOL-Library.Word"
begin

unbundle bit_operations_syntax

section \<open>Embedding blobs: \<open>encodeEmbedding\<close> and \<open>decodeEmbedding\<close>\<close>

subsection \<open>Data\<close>

type_synonym byte = "8 word"
type_synonym uint32 = "32 word"

text \<open>
  A Go \<open>float32\<close> is carried by its IEEE-754 bit pattern: \<open>math.Float32bits\<close> and
  \<open>math.Float32frombits\<close> are the two directions of that bit cast, and they are the only
  operations that \<open>encoding/binary\<close> applies to a \<open>float32\<close>. No floating-point arithmetic
  takes place in the code modelled here.
\<close>

datatype float32 = Float32frombits (Float32bits: uint32)

text \<open>
  The two ways the Go code leaves a command early: \<open>log.Fatal\<close>/\<open>log.Fatalf\<close> (message, then
  exit status 1) and \<open>panic\<close>.
\<close>

datatype error = Fatal string | Panic string

subsection \<open>The pieces of the Go library that the two functions call\<close>

text \<open>\<open>binary.LittleEndian.PutUint32\<close>: \<open>b[0] = byte(v)\<close>, \<open>b[1] = byte(v >> 8)\<close>, ...\<close>

definition PutUint32 :: "uint32 \<Rightarrow> byte list" where
  "PutUint32 v = [ucast v, ucast (drop_bit 8 v), ucast (drop_bit 16 v), ucast (drop_bit 24 v)]"

text \<open>\<open>binary.LittleEndian.Uint32\<close>: \<open>uint32(b[0]) | uint32(b[1])<<8 | uint32(b[2])<<16 | uint32(b[3])<<24\<close>.\<close>

definition Uint32 :: "byte list \<Rightarrow> uint32" where
  "Uint32 b = ucast (b ! 0) OR push_bit 8 (ucast (b ! 1)) OR push_bit 16 (ucast (b ! 2))
                OR push_bit 24 (ucast (b ! 3))"

text \<open>
  \<open>binary.Write(buf, binary.LittleEndian, f)\<close> on a \<open>*bytes.Buffer\<close>: the four bytes of
  \<open>Float32bits f\<close> are appended to the buffer. Writing to a \<open>bytes.Buffer\<close> reports no error;
  the result type keeps the error branch that the caller tests.
\<close>

definition binary_Write :: "byte list \<Rightarrow> float32 \<Rightarrow> string + byte list" where
  "binary_Write buf f = Inr (buf @ PutUint32 (Float32bits f))"

text \<open>
  \<open>binary.Read(buf, binary.LittleEndian, &num)\<close> on a \<open>*bytes.Reader\<close>, the reader being its
  unread bytes: \<open>io.ReadFull\<close> of four bytes fails with \<open>EOF\<close> when nothing is left and with
  \<open>unexpected EOF\<close> when fewer than four bytes are; otherwise the reader advances by four.
\<close>

definition binary_Read :: "byte list \<Rightarrow> string + (float32 \<times> byte list)" where
  "binary_Read buf =
     (if buf = [] then Inl ''EOF''
      else if length buf < 4 then Inl ''unexpected EOF''
      else Inr (Float32frombits (Uint32 (take 4 buf)), drop 4 buf))"

subsection \<open>The two functions\<close>

text \<open>The loop \<open>for _, f := range emb\<close> of \<open>encodeEmbedding\<close>, the buffer passed along.\<close>

fun encodeLoop :: "byte list \<Rightarrow> float32 list \<Rightarrow> error + byte list" where
  "encodeLoop buf [] = Inr buf"
| "encodeLoop buf (f # emb) =
     (case binary_Write buf f of
        Inl err \<Rightarrow> Inl (Panic err)
      | Inr buf' \<Rightarrow> encodeLoop buf' emb)"

definition encodeEmbedding :: "float32 list \<Rightarrow> error + byte list" where
  "encodeEmbedding emb = encodeLoop [] emb"

text \<open>The loop \<open>for i := 0; i < count; i++\<close> of \<open>decodeEmbedding\<close>.\<close>

function decodeLoop :: "nat \<Rightarrow> nat \<Rightarrow> byte list \<Rightarrow> float32 list \<Rightarrow> error + float32 list" where
  "decodeLoop i count buf numbers =
     (if i < count then
        (case binary_Read buf of
           Inl err \<Rightarrow> Inl (Panic err)
         | Inr (num, buf') \<Rightarrow> decodeLoop (i + 1) count buf' (numbers @ [num]))
      else Inr numbers)"
  by pat_completeness auto
termination
  by (relation "measure (\<lambda>(i, count, buf, numbers). count - i)") auto

declare decodeLoop.simps [simp del]

definition decodeEmbedding :: "byte list \<Rightarrow> error + float32 list" where
  "decodeEmbedding b =
     (let buf = b;
          count = length buf div 4
      in decodeLoop 0 count buf [])"

text \<open>
  The floats that \<open>n\<close> successive reads of four bytes give; the proofs describe the result of
  the decoding loop with it.
\<close>

fun floats_of :: "nat \<Rightarrow> byte list \<Rightarrow> float32 list" where
  "floats_of 0 b = []"
| "floats_of (Suc n) b = Float32frombits (Uint32 (take 4 b)) # floats_of n (drop 4 b)"

section \<open>The \<open>embed\<close> command in \<open>--db\<close> mode\<close>

subsection \<open>Flags, the database and the trace of a run\<close>

text \<open>The flags of \<open>embedCmd\<close> that \<open>embedModeDB\<close> reads.\<close>

record embed_flags =
  flag_table :: string
  flag_sql :: string
  flag_attach :: "string list"

text \<open>
  What a run does to the outside, in order: \<open>sql.Open\<close>, \<open>db.Exec\<close>, \<open>db.Query\<close>,
  \<open>rows.Next\<close>, \<open>row.Columns\<close>, \<open>row.Scan\<close>, \<open>rows.Err\<close> and a line written to standard
  output.
\<close>

datatype event =
    SqlOpen string
  | DbExec string
  | DbQuery string
  | RowsNext
  | RowColumns
  | RowScan
  | RowsErr
  | Stdout string

text \<open>
  One row of a query result, as \<open>scanRowIntoSlice\<close> meets it: \<open>row.Columns\<close> fails, or
  \<open>row.Scan\<close> fails, or the row's values arrive.
\<close>

datatype 'v scanned = ColumnsErr string | ScanErr string | Values "'v list"

text \<open>
  The database and the formatter. Every answer of the database may depend on what the
  session has done so far (the trace), so that a query sees an earlier \<open>ATTACH\<close>. A query
  answers with an error, or with its rows and the error that \<open>rows.Err\<close> reports after the
  last of them. \<open>Sprintf_v\<close> is \<open>fmt.Sprintf("%v", v)\<close> on a column value.
\<close>

record 'v world =
  sql_Open :: "string \<Rightarrow> string option"
  db_Exec :: "event list \<Rightarrow> string \<Rightarrow> string option"
  db_Query :: "event list \<Rightarrow> string \<Rightarrow> string + ('v scanned list \<times> string option)"
  Sprintf_v :: "'v \<Rightarrow> string"

subsection \<open>Strings\<close>

text \<open>
  \<open>strings.Join\<close>: nothing for no element, else the first element followed by each further
  element with the separator before it.
\<close>

fun Join :: "string list \<Rightarrow> string \<Rightarrow> string" where
  "Join [] sep = []"
| "Join (e # elems) sep = e @ concat (map (\<lambda>s. sep @ s) elems)"

text \<open>\<open>fmt.Println\<close> of a \<open>[]string\<close>: the elements between brackets, a space between two, a newline.\<close>

definition Println_strings :: "string list \<Rightarrow> string" where
  "Println_strings xs = ''['' @ Join xs '' '' @ '']'' @ [CHR 0x0A]"

text \<open>The statement that \<open>embedModeDB\<close> builds for the output table (a raw string literal).\<close>

definition createTableStmt :: "string \<Rightarrow> string" where
  "createTableStmt tableName =
     [CHR 0x0A] @ ''  CREATE TABLE IF NOT EXISTS '' @ tableName @ '' ('' @
     [CHR 0x0A, CHR 0x09] @ ''id TEXT PRIMARY KEY,'' @
     [CHR 0x0A, CHR 0x09] @ ''embedding BLOB'' @
     [CHR 0x0A, CHR 0x09] @ '')''"

definition attachStmt :: "string \<Rightarrow> string \<Rightarrow> string" where
  "attachStmt path alias = ''ATTACH DATABASE '' @ [CHR 0x27] @ path @ [CHR 0x27] @ '' as '' @ alias"

subsection \<open>\<open>scanRowIntoSlice\<close> and the loop over the rows\<close>

definition scanRowIntoSlice :: "'v scanned \<Rightarrow> event list \<times> (error + 'v list)" where
  "scanRowIntoSlice row =
     (case row of
        ColumnsErr err \<Rightarrow> ([RowColumns], Inl (Panic err))
      | ScanErr err \<Rightarrow> ([RowColumns, RowScan], Inl (Fatal (''error scanning row:'' @ err)))
      | Values values \<Rightarrow> ([RowColumns, RowScan], Inr values))"

text \<open>
  The message of \<open>log.Fatalf("expect at least 2 columns from query; got %v", len(values))\<close>,
  which is reached with zero or one value only.
\<close>

definition columnsMsg :: "nat \<Rightarrow> string" where
  "columnsMsg n = ''expect at least 2 columns from query; got '' @ (if n = 0 then ''0'' else ''1'')"

text \<open>
  The loop \<open>for rows.Next() { ... }\<close>: the trace so far, \<open>ids\<close> and \<open>texts\<close> are passed along.
  When the rows are used up, \<open>rows.Next\<close> is called once more and answers false.
\<close>

fun rowsLoop :: "('v \<Rightarrow> string) \<Rightarrow> 'v scanned list \<Rightarrow> event list \<Rightarrow> string list \<Rightarrow> string list
    \<Rightarrow> event list \<times> (error + string list \<times> string list)" where
  "rowsLoop fmtv [] tr ids texts = (tr @ [RowsNext], Inr (ids, texts))"
| "rowsLoop fmtv (row # rows) tr ids texts =
     (case scanRowIntoSlice row of
        (evs, Inl e) \<Rightarrow> (tr @ [RowsNext] @ evs, Inl e)
      | (evs, Inr values) \<Rightarrow>
          if length values < 2 then (tr @ [RowsNext] @ evs, Inl (Fatal (columnsMsg (length values))))
          else
            let rowTexts = map fmtv (drop 1 values)
            in rowsLoop fmtv rows (tr @ [RowsNext] @ evs)
                 (ids @ [fmtv (values ! 0)]) (texts @ [Join rowTexts '' '']))"

text \<open>The events of \<open>n\<close> rows read without failure; the proofs describe traces with it.\<close>

definition rowEvents :: "nat \<Rightarrow> event list" where
  "rowEvents n = concat (replicate n [RowsNext, RowColumns, RowScan])"

subsection \<open>\<open>embedModeDB\<close>\<close>

text \<open>The \<open>--attach\<close> block: nothing without the flag, a fatal error unless it has two elements.\<close>

definition attachStep :: "'v world \<Rightarrow> string list \<Rightarrow> event list \<Rightarrow> event list \<times> (error + unit)" where
  "attachStep w attachPair tr =
     (if length attachPair > 0 then
        if length attachPair \<noteq> 2 then (tr, Inl (Fatal ''expect <alias>,<db path> pair for --attach''))
        else
          let alias = attachPair ! 0;
              path = attachPair ! 1;
              stmt = attachStmt path alias
          in (case db_Exec w tr stmt of
                Some err \<Rightarrow> (tr @ [DbExec stmt], Inl (Fatal (''unable to attach '' @ path @ '': '' @ err)))
              | None \<Rightarrow> (tr @ [DbExec stmt], Inr ()))
      else (tr, Inr ()))"

text \<open>The branch \<open>if sqlMode != ""\<close>, up to the check of \<open>rows.Err\<close>.\<close>

definition sqlBranch :: "'v world \<Rightarrow> string list \<Rightarrow> string \<Rightarrow> event list
    \<Rightarrow> event list \<times> (error + string list \<times> string list)" where
  "sqlBranch w attachPair sqlMode tr =
     (case attachStep w attachPair tr of
        (tr1, Inl e) \<Rightarrow> (tr1, Inl e)
      | (tr1, Inr _) \<Rightarrow>
          (case db_Query w tr1 sqlMode of
             Inl err \<Rightarrow> (tr1 @ [DbQuery sqlMode], Inl (Fatal (''error running SQL query:'' @ err)))
           | Inr (rows, rowsErr) \<Rightarrow>
               (case rowsLoop (Sprintf_v w) rows (tr1 @ [DbQuery sqlMode]) [] [] of
                  (tr2, Inl e) \<Rightarrow> (tr2, Inl e)
                | (tr2, Inr (ids, texts)) \<Rightarrow>
                    (case rowsErr of
                       Some err \<Rightarrow> (tr2 @ [RowsErr], Inl (Fatal (''error scanning DB:'' @ err)))
                     | None \<Rightarrow> (tr2 @ [RowsErr], Inr (ids, texts))))))"

text \<open>
  The whole function. It ends after the two \<open>fmt.Println\<close> calls: what follows them in the
  source is a comment.
\<close>

definition embedModeDB :: "'v world \<Rightarrow> embed_flags \<Rightarrow> string list \<Rightarrow> string
    \<Rightarrow> event list \<times> (error + unit)" where
  "embedModeDB w cmd args dbPath =
     (let sqlMode = flag_sql cmd
      in case sql_Open w dbPath of
           Some err \<Rightarrow> ([SqlOpen dbPath], Inl (Fatal (''unable to open DB at '' @ dbPath)))
         | None \<Rightarrow>
             let tableName = flag_table cmd;
                 tr = [SqlOpen dbPath]
             in (case db_Exec w tr (createTableStmt tableName) of
                   Some err \<Rightarrow>
                     (tr @ [DbExec (createTableStmt tableName)],
                      Inl (Fatal (''unable to create table in DB: '' @ tableName)))
                 | None \<Rightarrow>
                     if sqlMode \<noteq> '''' then
                       (case sqlBranch w (flag_attach cmd) sqlMode (tr @ [DbExec (createTableStmt tableName)]) of
                          (tr', Inl e) \<Rightarrow> (tr', Inl e)
                        | (tr', Inr (ids, texts)) \<Rightarrow>
                            (tr' @ [Stdout (Println_strings ids), Stdout (Println_strings texts)], Inr ()))
                     else (tr @ [DbExec (createTableStmt tableName)], Inl (Panic ''only sql for now''))))"

section \<open>The \<open>prompt\<close> and \<open>template\<close> commands\<close>

subsection \<open>Prompt parts and the environment of a command\<close>

text \<open>
  A \<open>genai.Part\<close>: \<open>genai.Text\<close>, or a \<open>genai.Blob\<close> (MIME type and data), which is what
  \<open>genai.ImageData\<close> builds.
\<close>

datatype part = Text string | Blob string "byte list"

text \<open>
  Standard input: a terminal (\<open>isatty.IsTerminal\<close>), or something else, on which
  \<open>io.ReadAll\<close> gives an error or the contents.
\<close>

datatype stdin = Terminal | Piped "string + string"

text \<open>
  What \<open>runPromptCmd\<close> takes from outside: the result of \<open>apikey.Get\<close> (the key, or the fatal
  exit of that package, which is not among the sources), standard input, and the error, if
  any, of \<open>genai.NewClient\<close>.
\<close>

record prompt_env =
  apikey_Get :: "error + string"
  os_Stdin :: stdin
  genai_NewClient :: "string \<Rightarrow> string option"

text \<open>
  \<open>runTemplateCmd\<close> also calls \<open>argLooksLikeURL\<close>, \<open>argLooksLikeFilename\<close>, \<open>getPartFromURL\<close>,
  \<open>getPartFromFile\<close> and \<open>newGenaiClient\<close>, which are declared in no source file at hand, and
  \<open>strconv.ParseFloat\<close>; \<open>addTemplate\<close> writes a file. They are fields of the environment:
  the two tests, the two fetches (an error or a part), and the error, if any, of the others.
\<close>

record template_env = prompt_env +
  argLooksLikeURL :: "string \<Rightarrow> bool"
  argLooksLikeFilename :: "string \<Rightarrow> bool"
  getPartFromURL :: "string \<Rightarrow> string + part"
  getPartFromFile :: "string \<Rightarrow> string + part"
  newGenaiClient :: "string option"
  ParseFloat :: "string \<Rightarrow> string option"
  addTemplate :: "string \<Rightarrow> string \<Rightarrow> string option"

record template_flags =
  flag_list :: bool
  flag_add :: string
  flag_use :: string
  flag_temp :: string

subsection \<open>\<open>runPromptCmd\<close>, up to the call that sends the parts\<close>

fun readStdin :: "stdin \<Rightarrow> part list \<Rightarrow> error + part list" where
  "readStdin Terminal promptParts = Inr promptParts"
| "readStdin (Piped (Inl err)) promptParts = Inl (Fatal err)"
| "readStdin (Piped (Inr b)) promptParts = Inr (promptParts @ [Text b])"

text \<open>
  The result is the list \<open>promptParts\<close> handed to \<open>GenerateContentStream\<close> or
  \<open>GenerateContent\<close>; \<open>sysPrompt\<close> is the value of the \<open>--system\<close> flag.
\<close>

definition runPromptCmd :: "'e prompt_env_scheme \<Rightarrow> string \<Rightarrow> string list \<Rightarrow> error + part list" where
  "runPromptCmd env sysPrompt args =
     (case apikey_Get env of
        Inl e \<Rightarrow> Inl e
      | Inr key \<Rightarrow>
          let promptParts = (if sysPrompt \<noteq> '''' then [Text sysPrompt] else [])
          in (case readStdin (os_Stdin env) promptParts of
                Inl e \<Rightarrow> Inl e
              | Inr promptParts \<Rightarrow>
                  let promptParts =
                        (if length args \<ge> 1 then promptParts @ [Text (args ! 0)] else promptParts)
                  in if length promptParts = 0
                     then Inl (Fatal ''expect a prompt from stdin and/or command-line argument'')
                     else (case genai_NewClient env key of
                             Some err \<Rightarrow> Inl (Fatal err)
                           | None \<Rightarrow> Inr promptParts)))"

subsection \<open>\<open>runTemplateCmd\<close>\<close>

text \<open>\<open>strings.Count(template, "%s")\<close>: the occurrences of \<open>%s\<close>, from the left, not overlapping.\<close>

fun Count_pct_s :: "string \<Rightarrow> nat" where
  "Count_pct_s (a # b # s) =
     (if a = CHR ''%'' \<and> b = CHR ''s'' then 1 + Count_pct_s s else Count_pct_s (b # s))"
| "Count_pct_s s = 0"

text \<open>\<open>strings.Replace(template, "%s", text, 1)\<close>: the first occurrence of \<open>%s\<close> becomes \<open>text\<close>.\<close>

fun Replace_pct_s_1 :: "string \<Rightarrow> string \<Rightarrow> string" where
  "Replace_pct_s_1 (a # b # s) text =
     (if a = CHR ''%'' \<and> b = CHR ''s'' then text @ s else a # Replace_pct_s_1 (b # s) text)"
| "Replace_pct_s_1 s text = s"

text \<open>The loop over \<open>args\<close> that sorts them into parts and template texts.\<close>

fun argsLoop :: "'e template_env_scheme \<Rightarrow> string list \<Rightarrow> part list \<Rightarrow> string list
    \<Rightarrow> error + (part list \<times> string list)" where
  "argsLoop env [] promptParts textPrompt = Inr (promptParts, textPrompt)"
| "argsLoop env (arg # args) promptParts textPrompt =
     (if argLooksLikeURL env arg then
        (case getPartFromURL env arg of
           Inl err \<Rightarrow> Inl (Fatal err)
         | Inr part \<Rightarrow> argsLoop env args (promptParts @ [part]) textPrompt)
      else if argLooksLikeFilename env arg then
        (case getPartFromFile env arg of
           Inl err \<Rightarrow> Inl (Fatal err)
         | Inr part \<Rightarrow> argsLoop env args (promptParts @ [part]) textPrompt)
      else argsLoop env args promptParts (textPrompt @ [arg]))"

text \<open>The loop over \<open>textPrompt\<close> that fills the placeholders, with its \<open>break\<close>.\<close>

fun fillLoop :: "string \<Rightarrow> nat \<Rightarrow> string list \<Rightarrow> string" where
  "fillLoop template placeholdersCnt [] = template"
| "fillLoop template placeholdersCnt (text # textPrompt) =
     (if placeholdersCnt > 0
      then fillLoop (Replace_pct_s_1 template text) (placeholdersCnt - 1) textPrompt
      else template)"

text \<open>
  How a run of \<open>runTemplateCmd\<close> ends when nothing fails: the templates were listed, a
  template was added, or parts were sent to the model.
\<close>

datatype outcome = Listed | Added string string | Sent "part list"

text \<open>
  \<open>templates\<close> is the package's map; a key that is absent reads as the empty string. When
  \<open>--use\<close> is empty the function defines the flag \<open>system\<close> with the default \<open>""\<close> and
  calls \<open>runPromptCmd\<close>.
\<close>

definition runTemplateCmd :: "'e template_env_scheme \<Rightarrow> (string \<rightharpoonup> string) \<Rightarrow> template_flags
    \<Rightarrow> string list \<Rightarrow> error + outcome" where
  "runTemplateCmd env templates cmd args =
     (if flag_list cmd then Inr Listed
      else
        let addKey = flag_add cmd
        in if addKey \<noteq> '''' \<and> length args = 1 then
             (case addTemplate env addKey (args ! 0) of
                Some err \<Rightarrow> Inl (Fatal err)
              | None \<Rightarrow> Inr (Added addKey (args ! 0)))
           else
             let useKey = flag_use cmd
             in if useKey = '''' then
                  (case runPromptCmd env '''' args of
                     Inl e \<Rightarrow> Inl e
                   | Inr promptParts \<Rightarrow> Inr (Sent promptParts))
                else
                  let template = (case templates useKey of None \<Rightarrow> '''' | Some t \<Rightarrow> t)
                  in (case argsLoop env args [] [] of
                        Inl e \<Rightarrow> Inl e
                      | Inr (promptParts, textPrompt) \<Rightarrow>
                          let placeholdersCnt = Count_pct_s template;
                              template = fillLoop template placeholdersCnt textPrompt;
                              promptParts = promptParts @ [Text template]
                          in (case newGenaiClient env of
                                Some err \<Rightarrow> Inl (Fatal err)
                              | None \<Rightarrow>
                                  let tempValue = flag_temp cmd
                                  in if tempValue \<noteq> '''' then
                                       (case ParseFloat env tempValue of
                                          Some err \<Rightarrow> Inl (Fatal (''problem parsing --temp value: '' @ err))
                                        | None \<Rightarrow> Inr (Sent promptParts))
                                     else Inr (Sent promptParts))))"

section \<open>Proofs\<close>

subsection \<open>Little-endian bytes\<close>

lemma le_bytes_join:
  "ucast (ucast v :: byte) OR push_bit 8 (ucast (ucast (drop_bit 8 v) :: byte))
     OR push_bit 16 (ucast (ucast (drop_bit 16 v) :: byte))
     OR push_bit 24 (ucast (ucast (drop_bit 24 v) :: byte)) = (v :: uint32)"
proof (rule bit_word_eqI)
  fix n :: nat
  assume "n < LENGTH(32)"
  then have "n < 8 \<or> (8 \<le> n \<and> n < 16) \<or> (16 \<le> n \<and> n < 24) \<or> (24 \<le> n \<and> n < 32)"
    by simp arith
  then show "bit (ucast (ucast v :: byte) OR push_bit 8 (ucast (ucast (drop_bit 8 v) :: byte))
     OR push_bit 16 (ucast (ucast (drop_bit 16 v) :: byte))
     OR push_bit 24 (ucast (ucast (drop_bit 24 v) :: byte)) :: uint32) n = bit v n"
    by (auto simp: bit_simps)
qed

lemma Uint32_PutUint32: "Uint32 (PutUint32 v) = v"
  by (simp add: Uint32_def PutUint32_def le_bytes_join)

lemma length_PutUint32: "length (PutUint32 v) = 4"
  by (simp add: PutUint32_def)

lemma unat_byte_of: "unat (ucast (drop_bit n (w :: uint32)) :: byte) = (unat w div 2 ^ n) mod 256"
proof -
  have "unat (ucast (drop_bit n w) :: byte) = take_bit 8 (unat (drop_bit n w))"
    by (simp only: unsigned_ucast_eq) simp
  also have "\<dots> = take_bit 8 (drop_bit n (unat w))"
    by (simp only: unat_drop_bit_eq)
  also have "\<dots> = (unat w div 2 ^ n) mod 256"
    by (simp only: drop_bit_eq_div take_bit_eq_mod) simp
  finally show ?thesis .
qed

lemma unat_PutUint32_nth:
  assumes "k < 4"
  shows "unat (PutUint32 w ! k) = (unat w div 256 ^ k) mod 256"
proof -
  from assms have "k = 0 \<or> k = 1 \<or> k = 2 \<or> k = 3" by arith
  moreover have "unat (ucast w :: byte) = unat w mod 256"
    using unat_byte_of [of 0 w] by simp
  ultimately show ?thesis
    by (auto simp: PutUint32_def unat_byte_of)
qed

lemma PutUint32_Uint32: "PutUint32 (Uint32 [b0, b1, b2, b3]) = [b0, b1, b2, b3]"
proof -
  let ?v = "ucast b0 OR push_bit 8 (ucast b1) OR push_bit 16 (ucast b2) OR push_bit 24 (ucast b3) :: uint32"
  have 0: "(ucast ?v :: byte) = b0"
    by (rule bit_word_eqI) (auto simp: bit_simps dest: bit_imp_le_length)
  have 1: "(ucast (drop_bit 8 ?v) :: byte) = b1"
    by (rule bit_word_eqI) (auto simp: bit_simps dest: bit_imp_le_length)
  have 2: "(ucast (drop_bit 16 ?v) :: byte) = b2"
    by (rule bit_word_eqI) (auto simp: bit_simps dest: bit_imp_le_length)
  have 3: "(ucast (drop_bit 24 ?v) :: byte) = b3"
    by (rule bit_word_eqI) (auto simp: bit_simps dest: bit_imp_le_length)
  show ?thesis
    unfolding PutUint32_def Uint32_def using 0 1 2 3 by simp
qed

lemma digits256:
  fixes x :: nat
  assumes "x < 2 ^ 32"
  shows "x = x mod 256 + 256 * (x div 256 mod 256) + 65536 * (x div 65536 mod 256)
             + 16777216 * (x div 16777216 mod 256)"
proof -
  define a where "a = x div 256"
  define b where "b = a div 256"
  define c where "c = b div 256"
  have x: "x = x mod 256 + 256 * a" by (simp add: a_def)
  have a: "a = a mod 256 + 256 * b" by (simp add: b_def)
  have b: "b = b mod 256 + 256 * c" by (simp add: c_def)
  have b': "b = x div 65536" by (simp add: b_def a_def div_mult2_eq)
  have c': "c = x div 16777216" by (simp add: c_def b' div_mult2_eq)
  have "c < 256" using assms by (simp add: c')
  then have c: "c mod 256 = c" by simp
  have "x = x mod 256 + 256 * (a mod 256) + 65536 * (b mod 256) + 16777216 * c"
    using x a b by arith
  then show ?thesis
    using c by (simp add: a_def [symmetric] b' [symmetric] c' [symmetric])
qed

lemma unat_Uint32:
  "unat (Uint32 [b0, b1, b2, b3]) = unat b0 + 256 * unat b1 + 65536 * unat b2 + 16777216 * unat b3"
proof -
  let ?v = "Uint32 [b0, b1, b2, b3]"
  have lt: "unat ?v < 2 ^ 32" using unsigned_less [of ?v] by simp
  have "unat ([b0, b1, b2, b3] ! k) = (unat ?v div 256 ^ k) mod 256" if "k < 4" for k
    using unat_PutUint32_nth [OF that, of ?v] by (simp only: PutUint32_Uint32)
  from this [of 0] this [of 1] this [of 2] this [of 3] digits256 [OF lt]
  show ?thesis by simp
qed

lemma take4_drop:
  assumes "4 * i + 4 \<le> length b"
  shows "take 4 (drop (4 * i) b) = [b ! (4 * i), b ! (4 * i + 1), b ! (4 * i + 2), b ! (4 * i + 3)]"
proof (rule nth_equalityI)
  show "length (take 4 (drop (4 * i) b)) = length [b ! (4 * i), b ! (4 * i + 1), b ! (4 * i + 2), b ! (4 * i + 3)]"
    using assms by simp
next
  fix k
  assume "k < length (take 4 (drop (4 * i) b))"
  then have "k = 0 \<or> k = 1 \<or> k = 2 \<or> k = 3" by auto
  then show "take 4 (drop (4 * i) b) ! k = [b ! (4 * i), b ! (4 * i + 1), b ! (4 * i + 2), b ! (4 * i + 3)] ! k"
    using assms by auto
qed

subsection \<open>The decoding loop\<close>

lemma length_floats_of: "length (floats_of n b) = n"
  by (induction n arbitrary: b) auto

lemma floats_of_nth:
  "i < n \<Longrightarrow> floats_of n b ! i = Float32frombits (Uint32 (take 4 (drop (4 * i) b)))"
proof (induction n arbitrary: b i)
  case 0
  then show ?case by simp
next
  case (Suc n)
  show ?case
  proof (cases i)
    case 0
    then show ?thesis by simp
  next
    case (Suc j)
    with Suc.prems have "j < n" by simp
    from Suc.IH [OF this, of "drop 4 b"] Suc show ?thesis
      by (simp add: add.commute)
  qed
qed

lemma floats_of_take: "4 * n \<le> m \<Longrightarrow> floats_of n (take m b) = floats_of n b"
proof (induction n arbitrary: b m)
  case 0
  then show ?case by simp
next
  case (Suc n)
  then have "4 * n \<le> m - 4" and "4 \<le> m" by simp_all
  with Suc.IH [of "m - 4" "drop 4 b"] show ?case
    by (simp add: drop_take min_def)
qed

lemma decodeLoop_enough:
  "4 * (count - i) \<le> length buf \<Longrightarrow>
   decodeLoop i count buf numbers = Inr (numbers @ floats_of (count - i) buf)"
proof (induction i count buf numbers rule: decodeLoop.induct)
  case (1 i count buf numbers)
  show ?case
  proof (cases "i < count")
    case False
    then show ?thesis by (simp add: decodeLoop.simps)
  next
    case True
    then obtain d where d: "count - i = Suc d" and d': "count - (i + 1) = d"
      by (cases "count - i") auto
    with "1.prems" have len: "4 \<le> length buf" "4 * d \<le> length (drop 4 buf)" by simp_all
    then have rd: "binary_Read buf = Inr (Float32frombits (Uint32 (take 4 buf)), drop 4 buf)"
      by (auto simp: binary_Read_def)
    have "decodeLoop (i + 1) count (drop 4 buf) (numbers @ [Float32frombits (Uint32 (take 4 buf))])
            = Inr ((numbers @ [Float32frombits (Uint32 (take 4 buf))]) @ floats_of (count - (i + 1)) (drop 4 buf))"
      using "1.IH" [OF True rd refl] len d' by simp
    then show ?thesis
      using True rd d d' by (subst decodeLoop.simps) simp
  qed
qed

lemma decodeEmbedding_eq: "decodeEmbedding b = Inr (floats_of (length b div 4) b)"
  using decodeLoop_enough [of "length b div 4" 0 b "[]"]
  by (simp add: decodeEmbedding_def)

subsection \<open>The encoding loop\<close>

lemma encodeLoop_eq:
  "encodeLoop buf emb = Inr (buf @ concat (map (\<lambda>f. PutUint32 (Float32bits f)) emb))"
  by (induction emb arbitrary: buf) (simp_all add: binary_Write_def)

lemma encodeEmbedding_eq:
  "encodeEmbedding emb = Inr (concat (map (\<lambda>f. PutUint32 (Float32bits f)) emb))"
  by (simp add: encodeEmbedding_def encodeLoop_eq)

lemma length_concat_le: "length (concat (map (\<lambda>f. PutUint32 (Float32bits f)) emb)) = 4 * length emb"
  by (induction emb) (simp_all add: length_PutUint32)

lemma floats_of_concat:
  "floats_of (length emb) (concat (map (\<lambda>f. PutUint32 (Float32bits f)) emb) @ rest) = emb"
  by (induction emb) (simp_all add: length_PutUint32 Uint32_PutUint32)

lemma concat_le_chunk:
  "i < length emb \<Longrightarrow>
   take 4 (drop (4 * i) (concat (map (\<lambda>f. PutUint32 (Float32bits f)) emb))) = PutUint32 (Float32bits (emb ! i))"
proof (induction emb arbitrary: i)
  case Nil
  then show ?case by simp
next
  case (Cons f emb)
  show ?case
  proof (cases i)
    case 0
    then show ?thesis by (simp add: length_PutUint32)
  next
    case (Suc j)
    with Cons.prems Cons.IH [of j] show ?thesis
      by (simp add: length_PutUint32)
  qed
qed

lemma concat_le_nth:
  assumes "i < length emb" and "k < 4"
  shows "concat (map (\<lambda>f. PutUint32 (Float32bits f)) emb) ! (4 * i + k) = PutUint32 (Float32bits (emb ! i)) ! k"
proof -
  let ?b = "concat (map (\<lambda>f. PutUint32 (Float32bits f)) emb)"
  have "4 * i + 4 \<le> length ?b" using assms(1) by (simp add: length_concat_le)
  then have "take 4 (drop (4 * i) ?b) ! k = ?b ! (4 * i + k)"
    using assms(2) by simp
  then show ?thesis
    using concat_le_chunk [OF assms(1)] by simp
qed

section \<open>The claims about the blob encoding\<close>

text \<open>
  Claim C2. For every slice \<open>v\<close> of 32-bit floats, \<open>encodeEmbedding v\<close> returns (it does not
  panic) a byte slice of length exactly \<open>4 * len(v)\<close>, so there is no header, length prefix
  or checksum, and for every index \<open>i < len(v)\<close> the bytes \<open>4i .. 4i+3\<close> are the little-endian
  serialization of \<open>v[i]\<close>: they are what \<open>PutUint32\<close> gives for the bits of \<open>v[i]\<close>, and the
  byte at offset \<open>k\<close> is the \<open>k\<close>-th base-256 digit of these bits, least significant first.
\<close>

theorem encodeEmbedding_layout:
  "\<exists>b. encodeEmbedding v = Inr b \<and> length b = 4 * length v \<and>
       (\<forall>i<length v.
          take 4 (drop (4 * i) b) = PutUint32 (Float32bits (v ! i)) \<and>
          (\<forall>k<4. unat (b ! (4 * i + k)) = unat (Float32bits (v ! i)) div 256 ^ k mod 256))"
  by (simp add: encodeEmbedding_eq length_concat_le concat_le_chunk concat_le_nth unat_PutUint32_nth)

text \<open>
  The claim at the two floats with the bits \<open>0x3F800000\<close> (the float 1.0) and \<open>0x01020304\<close>:
  eight bytes, and the byte at offset 2 of the second float is \<open>0x02\<close>.
\<close>

theorem encodeEmbedding_layout_witness:
  "encodeEmbedding [Float32frombits 0x3F800000, Float32frombits 0x01020304]
     = Inr [0x00, 0x00, 0x80, 0x3F, 0x04, 0x03, 0x02, 0x01] \<and>
   (1 :: nat) < length [Float32frombits 0x3F800000, Float32frombits 0x01020304] \<and> (2 :: nat) < 4 \<and>
   unat ([0x00, 0x00, 0x80, 0x3F, 0x04, 0x03, 0x02, 0x01 :: byte] ! (4 * 1 + 2)) = 2"
proof -
  let ?v = "[Float32frombits 0x3F800000, Float32frombits 0x01020304]"
  have enc: "encodeEmbedding ?v = Inr [0x00, 0x00, 0x80, 0x3F, 0x04, 0x03, 0x02, 0x01]"
    by (simp add: encodeEmbedding_def binary_Write_def PutUint32_def)
  from encodeEmbedding_layout [of ?v] enc
  have "\<forall>i<length ?v. \<forall>k<4. unat ([0x00, 0x00, 0x80, 0x3F, 0x04, 0x03, 0x02, 0x01 :: byte] ! (4 * i + k))
          = unat (Float32bits (?v ! i)) div 256 ^ k mod 256"
    by simp
  then have "unat ([0x00, 0x00, 0x80, 0x3F, 0x04, 0x03, 0x02, 0x01 :: byte] ! (4 * 1 + 2))
          = unat (Float32bits (?v ! 1)) div 256 ^ 2 mod 256"
    by (simp del: nth_Cons_numeral)
  then show ?thesis using enc by simp
qed

text \<open>
  Claim C1. For every slice \<open>v\<close> of 32-bit floats, \<open>encodeEmbedding v\<close> returns a byte slice
  and \<open>decodeEmbedding\<close> of that slice returns \<open>v\<close> again, each float with the bits it had.
\<close>

theorem decodeEmbedding_encodeEmbedding:
  "\<exists>b. encodeEmbedding v = Inr b \<and> decodeEmbedding b = Inr v"
  using floats_of_concat [of v "[]"]
  by (simp add: encodeEmbedding_eq decodeEmbedding_eq length_concat_le)

text \<open>
  Claim C8. \<open>decodeEmbedding\<close> is total: for every byte slice \<open>b\<close>, the empty one and those
  whose length is no multiple of four included, it returns without panicking, and it returns
  exactly \<open>len(b) / 4\<close> floats (rounded down); float \<open>i\<close> is decoded from the bytes
  \<open>4i .. 4i+3\<close>, the first of them the least significant; the bytes after the first
  \<open>4 * (len(b) / 4)\<close>, at most three, change nothing.
\<close>

theorem decodeEmbedding_total:
  "\<exists>numbers. decodeEmbedding b = Inr numbers \<and> length numbers = length b div 4 \<and>
     (\<forall>i<length b div 4.
        numbers ! i = Float32frombits (Uint32 [b ! (4 * i), b ! (4 * i + 1), b ! (4 * i + 2), b ! (4 * i + 3)]) \<and>
        unat (Float32bits (numbers ! i)) =
          unat (b ! (4 * i)) + 256 * unat (b ! (4 * i + 1)) + 65536 * unat (b ! (4 * i + 2))
            + 16777216 * unat (b ! (4 * i + 3))) \<and>
     decodeEmbedding (take (4 * (length b div 4)) b) = Inr numbers"
proof -
  let ?n = "length b div 4"
  have nth: "floats_of ?n b ! i
      = Float32frombits (Uint32 [b ! (4 * i), b ! (4 * i + 1), b ! (4 * i + 2), b ! (4 * i + 3)])"
    if "i < ?n" for i
  proof -
    from that have "4 * i + 4 \<le> length b" by arith
    then show ?thesis using floats_of_nth [OF that, of b] by (simp add: take4_drop)
  qed
  have "length (take (4 * ?n) b) div 4 = ?n" by (simp add: min_def)
  then have "decodeEmbedding (take (4 * ?n) b) = Inr (floats_of ?n b)"
    by (simp add: decodeEmbedding_eq floats_of_take)
  then show ?thesis
    by (simp add: decodeEmbedding_eq length_floats_of nth unat_Uint32)
qed

text \<open>
  The claim at nine bytes: two floats come back, the second with the bits \<open>0x01020304\<close>, and
  the ninth byte is ignored.
\<close>

theorem decodeEmbedding_total_witness:
  "decodeEmbedding [0x00, 0x00, 0x80, 0x3F, 0x04, 0x03, 0x02, 0x01, 0x09]
     = Inr [Float32frombits 0x3F800000, Float32frombits 0x01020304] \<and>
   (1 :: nat) < length [0x00, 0x00, 0x80, 0x3F, 0x04, 0x03, 0x02, 0x01, 0x09 :: byte] div 4 \<and>
   unat (0x01020304 :: uint32) = 4 + 256 * 3 + 65536 * 2 + 16777216 * 1 \<and>
   decodeEmbedding [0x00, 0x00, 0x80, 0x3F, 0x04, 0x03, 0x02, 0x01]
     = Inr [Float32frombits 0x3F800000, Float32frombits 0x01020304]"
proof -
  let ?b = "[0x00, 0x00, 0x80, 0x3F, 0x04, 0x03, 0x02, 0x01, 0x09 :: byte]"
  have dec: "decodeEmbedding ?b = Inr [Float32frombits 0x3F800000, Float32frombits 0x01020304]"
    by code_simp
  from decodeEmbedding_total [of ?b] dec
  have "decodeEmbedding (take (4 * (length ?b div 4)) ?b)
          = Inr [Float32frombits 0x3F800000, Float32frombits 0x01020304]"
    by simp
  then show ?thesis using dec by simp
qed

section \<open>The run of \<open>embedModeDB\<close>\<close>

subsection \<open>The loop over the rows\<close>

lemma rowEvents_Suc: "rowEvents (Suc n) = [RowsNext, RowColumns, RowScan] @ rowEvents n"
  by (simp add: rowEvents_def)

lemma rowsLoop_Values:
  "\<forall>vs\<in>set vss. 2 \<le> length vs \<Longrightarrow>
   rowsLoop fmtv (map Values vss @ rest) tr ids texts =
   rowsLoop fmtv rest (tr @ rowEvents (length vss))
     (ids @ map (\<lambda>vs. fmtv (vs ! 0)) vss)
     (texts @ map (\<lambda>vs. Join (map fmtv (drop 1 vs)) '' '') vss)"
proof (induction vss arbitrary: tr ids texts)
  case Nil
  then show ?case by (simp add: rowEvents_def)
next
  case (Cons vs vss)
  then have len: "\<not> length vs < 2" and rest: "\<forall>vs\<in>set vss. 2 \<le> length vs"
    by auto
  have "rowsLoop fmtv (map Values (vs # vss) @ rest) tr ids texts =
        rowsLoop fmtv (map Values vss @ rest) (tr @ [RowsNext, RowColumns, RowScan])
          (ids @ [fmtv (vs ! 0)]) (texts @ [Join (map fmtv (drop 1 vs)) '' ''])"
    using len by (simp add: scanRowIntoSlice_def)
  also have "\<dots> = rowsLoop fmtv rest ((tr @ [RowsNext, RowColumns, RowScan]) @ rowEvents (length vss))
          ((ids @ [fmtv (vs ! 0)]) @ map (\<lambda>vs. fmtv (vs ! 0)) vss)
          ((texts @ [Join (map fmtv (drop 1 vs)) '' '']) @ map (\<lambda>vs. Join (map fmtv (drop 1 vs)) '' '') vss)"
    by (rule Cons.IH [OF rest])
  finally show ?case
    by (simp add: rowEvents_Suc)
qed

lemma rowsLoop_all_Values:
  "\<forall>vs\<in>set vss. 2 \<le> length vs \<Longrightarrow>
   rowsLoop fmtv (map Values vss) tr ids texts =
   (tr @ rowEvents (length vss) @ [RowsNext],
    Inr (ids @ map (\<lambda>vs. fmtv (vs ! 0)) vss,
         texts @ map (\<lambda>vs. Join (map fmtv (drop 1 vs)) '' '') vss))"
  using rowsLoop_Values [of vss fmtv "[]" tr ids texts] by simp

lemma rowsLoop_short:
  "\<forall>vs\<in>set vss. 2 \<le> length vs \<Longrightarrow> length short < 2 \<Longrightarrow>
   rowsLoop fmtv (map Values vss @ Values short # rest) tr ids texts =
   (tr @ rowEvents (length vss) @ [RowsNext, RowColumns, RowScan],
    Inl (Fatal (columnsMsg (length short))))"
  by (simp add: rowsLoop_Values scanRowIntoSlice_def)

lemma rowsLoop_ScanErr:
  "\<forall>vs\<in>set vss. 2 \<le> length vs \<Longrightarrow>
   rowsLoop fmtv (map Values vss @ ScanErr err # rest) tr ids texts =
   (tr @ rowEvents (length vss) @ [RowsNext, RowColumns, RowScan],
    Inl (Fatal (''error scanning row:'' @ err)))"
  by (simp add: rowsLoop_Values scanRowIntoSlice_def)

lemma rowsLoop_ColumnsErr:
  "\<forall>vs\<in>set vss. 2 \<le> length vs \<Longrightarrow>
   rowsLoop fmtv (map Values vss @ ColumnsErr err # rest) tr ids texts =
   (tr @ rowEvents (length vss) @ [RowsNext, RowColumns], Inl (Panic err))"
  by (simp add: rowsLoop_Values scanRowIntoSlice_def)

text \<open>The loop adds row events to the trace and nothing else.\<close>

lemma rowsLoop_trace:
  "\<exists>evs. fst (rowsLoop fmtv rows tr ids texts) = tr @ evs \<and> set evs \<subseteq> {RowsNext, RowColumns, RowScan}"
proof (induction rows arbitrary: tr ids texts)
  case Nil
  show ?case by simp
next
  case (Cons row rows)
  show ?case
  proof (cases row)
    case (ColumnsErr err)
    then show ?thesis by (simp add: scanRowIntoSlice_def)
  next
    case (ScanErr err)
    then show ?thesis by (simp add: scanRowIntoSlice_def)
  next
    case (Values vals)
    show ?thesis
    proof (cases "length vals < 2")
      case True
      with Values show ?thesis by (simp add: scanRowIntoSlice_def)
    next
      case False
      from Cons.IH [of "tr @ [RowsNext, RowColumns, RowScan]" "ids @ [fmtv (vals ! 0)]"
          "texts @ [Join (map fmtv (drop 1 vals)) '' '']"]
      obtain evs where "fst (rowsLoop fmtv rows (tr @ [RowsNext, RowColumns, RowScan])
            (ids @ [fmtv (vals ! 0)]) (texts @ [Join (map fmtv (drop 1 vals)) '' '']))
          = (tr @ [RowsNext, RowColumns, RowScan]) @ evs"
        and "set evs \<subseteq> {RowsNext, RowColumns, RowScan}"
        by blast
      then have "fst (rowsLoop fmtv (row # rows) tr ids texts) = tr @ ([RowsNext, RowColumns, RowScan] @ evs)
          \<and> set ([RowsNext, RowColumns, RowScan] @ evs) \<subseteq> {RowsNext, RowColumns, RowScan}"
        using Values False by (simp add: scanRowIntoSlice_def)
      then show ?thesis by blast
    qed
  qed
qed

subsection \<open>The steps before and after the loop\<close>

lemma embedModeDB_open_fails:
  "sql_Open w dbPath = Some err \<Longrightarrow>
   embedModeDB w cmd args dbPath = ([SqlOpen dbPath], Inl (Fatal (''unable to open DB at '' @ dbPath)))"
  by (simp add: embedModeDB_def Let_def)

lemma embedModeDB_create_fails:
  "sql_Open w dbPath = None \<Longrightarrow>
   db_Exec w [SqlOpen dbPath] (createTableStmt (flag_table cmd)) = Some err \<Longrightarrow>
   embedModeDB w cmd args dbPath =
     ([SqlOpen dbPath, DbExec (createTableStmt (flag_table cmd))],
      Inl (Fatal (''unable to create table in DB: '' @ flag_table cmd)))"
  by (simp add: embedModeDB_def Let_def)

lemma embedModeDB_no_sql:
  "sql_Open w dbPath = None \<Longrightarrow>
   db_Exec w [SqlOpen dbPath] (createTableStmt (flag_table cmd)) = None \<Longrightarrow>
   flag_sql cmd = '''' \<Longrightarrow>
   embedModeDB w cmd args dbPath =
     ([SqlOpen dbPath, DbExec (createTableStmt (flag_table cmd))], Inl (Panic ''only sql for now''))"
  by (simp add: embedModeDB_def Let_def)

lemma embedModeDB_sql:
  "sql_Open w dbPath = None \<Longrightarrow>
   db_Exec w [SqlOpen dbPath] (createTableStmt (flag_table cmd)) = None \<Longrightarrow>
   flag_sql cmd \<noteq> '''' \<Longrightarrow>
   embedModeDB w cmd args dbPath =
     (case sqlBranch w (flag_attach cmd) (flag_sql cmd)
             [SqlOpen dbPath, DbExec (createTableStmt (flag_table cmd))] of
        (tr', Inl e) \<Rightarrow> (tr', Inl e)
      | (tr', Inr (ids, texts)) \<Rightarrow>
          (tr' @ [Stdout (Println_strings ids), Stdout (Println_strings texts)], Inr ()))"
  by (simp add: embedModeDB_def Let_def)

lemma attachStep_pair:
  "attachStep w [alias, path] tr =
     (case db_Exec w tr (attachStmt path alias) of
        Some err \<Rightarrow> (tr @ [DbExec (attachStmt path alias)], Inl (Fatal (''unable to attach '' @ path @ '': '' @ err)))
      | None \<Rightarrow> (tr @ [DbExec (attachStmt path alias)], Inr ()))"
  by (simp add: attachStep_def Let_def)

lemma attachStep_bad:
  "attachPair \<noteq> [] \<Longrightarrow> length attachPair \<noteq> 2 \<Longrightarrow>
   attachStep w attachPair tr = (tr, Inl (Fatal ''expect <alias>,<db path> pair for --attach''))"
  by (simp add: attachStep_def Let_def)

lemma sqlBranch_attach_fails:
  "attachStep w attachPair tr = (tr1, Inl e) \<Longrightarrow> sqlBranch w attachPair sqlMode tr = (tr1, Inl e)"
  by (simp add: sqlBranch_def)

lemma sqlBranch_query_fails:
  "attachStep w attachPair tr = (tr1, Inr u) \<Longrightarrow> db_Query w tr1 sqlMode = Inl err \<Longrightarrow>
   sqlBranch w attachPair sqlMode tr = (tr1 @ [DbQuery sqlMode], Inl (Fatal (''error running SQL query:'' @ err)))"
  by (simp add: sqlBranch_def)

lemma sqlBranch_rows:
  "attachStep w attachPair tr = (tr1, Inr u) \<Longrightarrow> db_Query w tr1 sqlMode = Inr (rows, rowsErr) \<Longrightarrow>
   sqlBranch w attachPair sqlMode tr =
     (case rowsLoop (Sprintf_v w) rows (tr1 @ [DbQuery sqlMode]) [] [] of
        (tr2, Inl e) \<Rightarrow> (tr2, Inl e)
      | (tr2, Inr (ids, texts)) \<Rightarrow>
          (case rowsErr of
             Some err \<Rightarrow> (tr2 @ [RowsErr], Inl (Fatal (''error scanning DB:'' @ err)))
           | None \<Rightarrow> (tr2 @ [RowsErr], Inr (ids, texts))))"
  by (simp add: sqlBranch_def)

lemma embedModeDB_rows:
  assumes "sql_Open w dbPath = None"
    and "db_Exec w [SqlOpen dbPath] (createTableStmt (flag_table cmd)) = None"
    and "flag_sql cmd \<noteq> ''''"
    and "attachStep w (flag_attach cmd) [SqlOpen dbPath, DbExec (createTableStmt (flag_table cmd))] = (h, Inr u)"
    and "db_Query w h (flag_sql cmd) = Inr (rows, rowsErr)"
  shows "embedModeDB w cmd args dbPath =
     (case rowsLoop (Sprintf_v w) rows (h @ [DbQuery (flag_sql cmd)]) [] [] of
        (tr2, Inl e) \<Rightarrow> (tr2, Inl e)
      | (tr2, Inr (ids, texts)) \<Rightarrow>
          (case rowsErr of
             Some err \<Rightarrow> (tr2 @ [RowsErr], Inl (Fatal (''error scanning DB:'' @ err)))
           | None \<Rightarrow>
               (tr2 @ [RowsErr, Stdout (Println_strings ids), Stdout (Println_strings texts)], Inr ())))"
  unfolding embedModeDB_sql [OF assms(1-3)] sqlBranch_rows [OF assms(4,5)]
  by (simp split: prod.splits sum.splits option.splits)

subsection \<open>What a trace can contain\<close>

lemma attachStep_trace:
  "fst (attachStep w attachPair tr) = tr \<or>
   (\<exists>alias path. attachPair = [alias, path] \<and>
      fst (attachStep w attachPair tr) = tr @ [DbExec (attachStmt path alias)])"
proof (cases "length attachPair = 2")
  case True
  then obtain a p where ap: "attachPair = [a, p]"
    by (cases attachPair; cases "tl attachPair") auto
  show ?thesis
    unfolding ap attachStep_pair by (simp split: option.splits)
next
  case False
  then show ?thesis by (simp add: attachStep_def)
qed

lemma sqlBranch_trace:
  "\<exists>evs. fst (sqlBranch w attachPair sqlMode tr) = fst (attachStep w attachPair tr) @ evs \<and>
         (\<forall>stmt. DbExec stmt \<notin> set evs)"
proof (cases "attachStep w attachPair tr")
  case (Pair tr1 r)
  show ?thesis
  proof (cases r)
    case (Inl e)
    with Pair show ?thesis by (simp add: sqlBranch_def)
  next
    case (Inr u)
    note att = Pair [unfolded Inr]
    show ?thesis
    proof (cases "db_Query w tr1 sqlMode")
      case (Inl err)
      show ?thesis
        unfolding sqlBranch_query_fails [OF att Inl] att by simp
    next
      case (Inr res)
      obtain rows rowsErr where res: "res = (rows, rowsErr)" by (cases res)
      obtain evs where evs: "fst (rowsLoop (Sprintf_v w) rows (tr1 @ [DbQuery sqlMode]) [] [])
            = (tr1 @ [DbQuery sqlMode]) @ evs"
        and sub: "set evs \<subseteq> {RowsNext, RowColumns, RowScan}"
        using rowsLoop_trace by blast
      from sub have no: "\<forall>stmt. DbExec stmt \<notin> set evs" by auto
      obtain tr2 r2 where loop: "rowsLoop (Sprintf_v w) rows (tr1 @ [DbQuery sqlMode]) [] [] = (tr2, r2)"
        by (cases "rowsLoop (Sprintf_v w) rows (tr1 @ [DbQuery sqlMode]) [] []")
      with evs have tr2: "tr2 = tr1 @ DbQuery sqlMode # evs" by simp
      have "fst (sqlBranch w attachPair sqlMode tr) = tr1 @ DbQuery sqlMode # evs \<or>
            fst (sqlBranch w attachPair sqlMode tr) = tr1 @ DbQuery sqlMode # evs @ [RowsErr]"
        unfolding sqlBranch_rows [OF att Inr [unfolded res]] loop tr2
        by (simp split: sum.splits option.splits prod.splits)
      then show ?thesis
        using no att by auto
    qed
  qed
qed

lemma embedModeDB_execs:
  assumes "DbExec stmt \<in> set (fst (embedModeDB w cmd args dbPath))"
  shows "stmt = createTableStmt (flag_table cmd) \<or>
         (\<exists>alias path. flag_attach cmd = [alias, path] \<and> stmt = attachStmt path alias)"
proof (cases "sql_Open w dbPath")
  case (Some err)
  with assms show ?thesis by (simp add: embedModeDB_open_fails)
next
  case None
  note op = this
  let ?tr1 = "[SqlOpen dbPath, DbExec (createTableStmt (flag_table cmd))]"
  show ?thesis
  proof (cases "db_Exec w [SqlOpen dbPath] (createTableStmt (flag_table cmd))")
    case (Some err)
    with assms op show ?thesis by (simp add: embedModeDB_create_fails)
  next
    case None
    note cr = this
    show ?thesis
    proof (cases "flag_sql cmd = ''''")
      case True
      with assms op cr show ?thesis by (simp add: embedModeDB_no_sql)
    next
      case False
      obtain evs where evs: "fst (sqlBranch w (flag_attach cmd) (flag_sql cmd) ?tr1)
            = fst (attachStep w (flag_attach cmd) ?tr1) @ evs"
        and no: "\<forall>stmt. DbExec stmt \<notin> set evs"
        using sqlBranch_trace by blast
      have "fst (embedModeDB w cmd args dbPath) = fst (sqlBranch w (flag_attach cmd) (flag_sql cmd) ?tr1)
          \<or> (\<exists>a b. fst (embedModeDB w cmd args dbPath)
                = fst (sqlBranch w (flag_attach cmd) (flag_sql cmd) ?tr1) @ [Stdout a, Stdout b])"
        unfolding embedModeDB_sql [OF op cr False]
        by (simp split: prod.splits sum.splits)
      with assms evs no have "DbExec stmt \<in> set (fst (attachStep w (flag_attach cmd) ?tr1))"
        by auto
      with attachStep_trace [of w "flag_attach cmd" ?tr1] show ?thesis
        by auto
    qed
  qed
qed

lemma sqlBranch_query_trace:
  assumes "attachStep w attachPair tr = (h, Inr u)"
  shows "\<exists>tr'. fst (sqlBranch w attachPair sqlMode tr) = h @ DbQuery sqlMode # tr'"
proof (cases "db_Query w h sqlMode")
  case (Inl err)
  show ?thesis
    unfolding sqlBranch_query_fails [OF assms Inl] by simp
next
  case (Inr res)
  obtain rows rowsErr where res: "res = (rows, rowsErr)" by (cases res)
  obtain evs where evs: "fst (rowsLoop (Sprintf_v w) rows (h @ [DbQuery sqlMode]) [] [])
        = (h @ [DbQuery sqlMode]) @ evs"
    using rowsLoop_trace by blast
  obtain tr2 r2 where loop: "rowsLoop (Sprintf_v w) rows (h @ [DbQuery sqlMode]) [] [] = (tr2, r2)"
    by (cases "rowsLoop (Sprintf_v w) rows (h @ [DbQuery sqlMode]) [] []")
  with evs have tr2: "tr2 = h @ DbQuery sqlMode # evs" by simp
  have "fst (sqlBranch w attachPair sqlMode tr) = h @ DbQuery sqlMode # evs \<or>
        fst (sqlBranch w attachPair sqlMode tr) = h @ DbQuery sqlMode # (evs @ [RowsErr])"
    unfolding sqlBranch_rows [OF assms Inr [unfolded res]] loop tr2
    by (simp split: sum.splits option.splits prod.splits)
  then show ?thesis by blast
qed

lemma embedModeDB_query_trace:
  assumes "sql_Open w dbPath = None"
    and "db_Exec w [SqlOpen dbPath] (createTableStmt (flag_table cmd)) = None"
    and "flag_sql cmd \<noteq> ''''"
    and "attachStep w (flag_attach cmd) [SqlOpen dbPath, DbExec (createTableStmt (flag_table cmd))] = (h, Inr u)"
  shows "\<exists>tr' r. embedModeDB w cmd args dbPath = (h @ DbQuery (flag_sql cmd) # tr', r)"
proof -
  let ?sb = "sqlBranch w (flag_attach cmd) (flag_sql cmd) [SqlOpen dbPath, DbExec (createTableStmt (flag_table cmd))]"
  obtain tr' where tr': "fst ?sb = h @ DbQuery (flag_sql cmd) # tr'"
    using sqlBranch_query_trace [OF assms(4)] by blast
  obtain t r where sb: "?sb = (t, r)" by (cases ?sb)
  with tr' have t: "t = h @ DbQuery (flag_sql cmd) # tr'" by simp
  show ?thesis
  proof (cases r)
    case (Inl e)
    then have "embedModeDB w cmd args dbPath = (h @ DbQuery (flag_sql cmd) # tr', Inl e)"
      unfolding embedModeDB_sql [OF assms(1-3)] sb t by simp
    then show ?thesis by blast
  next
    case (Inr p)
    obtain ids texts where p: "p = (ids, texts)" by (cases p)
    have "embedModeDB w cmd args dbPath =
        (h @ DbQuery (flag_sql cmd) # (tr' @ [Stdout (Println_strings ids), Stdout (Println_strings texts)]), Inr ())"
      unfolding embedModeDB_sql [OF assms(1-3)] sb t Inr p by simp
    then show ?thesis by blast
  qed
qed

lemma embedModeDB_good_run:
  assumes "sql_Open w dbPath = None"
    and "db_Exec w [SqlOpen dbPath] (createTableStmt (flag_table cmd)) = None"
    and "flag_sql cmd \<noteq> ''''"
    and "attachStep w (flag_attach cmd) [SqlOpen dbPath, DbExec (createTableStmt (flag_table cmd))] = (h, Inr u)"
    and "\<forall>vs\<in>set vss. 2 \<le> length vs"
    and "db_Query w h (flag_sql cmd) = Inr (map Values vss, None)"
  shows "embedModeDB w cmd args dbPath =
     (h @ [DbQuery (flag_sql cmd)] @ rowEvents (length vss) @
        [RowsNext, RowsErr,
         Stdout (Println_strings (map (\<lambda>vs. Sprintf_v w (vs ! 0)) vss)),
         Stdout (Println_strings (map (\<lambda>vs. Join (map (Sprintf_v w) (drop 1 vs)) '' '') vss))],
      Inr ())"
  by (simp add: embedModeDB_rows [OF assms(1-4) assms(6)] rowsLoop_all_Values [OF assms(5)])

lemma embedModeDB_bad_attach_aborts:
  assumes "flag_sql cmd \<noteq> ''''" and "flag_attach cmd \<noteq> []" and "length (flag_attach cmd) \<noteq> 2"
  shows "\<exists>tr e. embedModeDB w cmd args dbPath = (tr, Inl e) \<and> DbQuery (flag_sql cmd) \<notin> set tr"
proof (cases "sql_Open w dbPath")
  case (Some err)
  then show ?thesis by (simp add: embedModeDB_open_fails)
next
  case None
  note op = this
  show ?thesis
  proof (cases "db_Exec w [SqlOpen dbPath] (createTableStmt (flag_table cmd))")
    case (Some err)
    with op show ?thesis by (simp add: embedModeDB_create_fails)
  next
    case None
    show ?thesis
      by (simp add: embedModeDB_sql [OF op None assms(1)]
          sqlBranch_attach_fails [OF attachStep_bad [OF assms(2,3)]])
  qed
qed

section \<open>The claims about \<open>embed\<close> in \<open>--db\<close> mode\<close>

text \<open>
  Claim C9. In SQL mode, a result row with the columns \<open>c0, c1, ..., cn\<close> gives the id
  \<open>Sprintf("%v", c0)\<close> and the text made of \<open>Sprintf("%v", c1)\<close> to \<open>Sprintf("%v", cn)\<close> in
  column order with one space between two of them; the ids and the texts are collected in
  row order. A row with fewer than two columns ends the loop, and the run, with the fatal
  error \<open>expect at least 2 columns from query\<close>; the rows after it are not read.
\<close>

theorem rowsLoop_id_text:
  "(\<forall>vs\<in>set vss. 2 \<le> length vs) \<longrightarrow>
     rowsLoop fmtv (map Values vss) tr [] [] =
       (tr @ rowEvents (length vss) @ [RowsNext],
        Inr (map (\<lambda>vs. fmtv (vs ! 0)) vss, map (\<lambda>vs. Join (map fmtv (drop 1 vs)) '' '') vss)) \<and>
     Join (map fmtv [c1]) '' '' = fmtv c1 \<and>
     Join (map fmtv (c1 # c2 # cs)) '' '' = fmtv c1 @ '' '' @ Join (map fmtv (c2 # cs)) '' '' \<and>
     (length short < 2 \<longrightarrow>
        rowsLoop fmtv (map Values vss @ Values short # rest) tr [] [] =
          (tr @ rowEvents (length vss) @ [RowsNext, RowColumns, RowScan],
           Inl (Fatal (columnsMsg (length short)))) \<and>
        (sql_Open w dbPath = None \<and>
         db_Exec w [SqlOpen dbPath] (createTableStmt (flag_table cmd)) = None \<and>
         flag_sql cmd \<noteq> '''' \<and>
         attachStep w (flag_attach cmd) [SqlOpen dbPath, DbExec (createTableStmt (flag_table cmd))] = (h, Inr ()) \<and>
         Sprintf_v w = fmtv \<and>
         db_Query w h (flag_sql cmd) = Inr (map Values vss @ Values short # rest, rowsErr) \<longrightarrow>
         embedModeDB w cmd args dbPath =
           (h @ [DbQuery (flag_sql cmd)] @ rowEvents (length vss) @ [RowsNext, RowColumns, RowScan],
            Inl (Fatal (columnsMsg (length short))))))"
proof (intro impI conjI)
  assume good: "\<forall>vs\<in>set vss. 2 \<le> length vs"
  show "rowsLoop fmtv (map Values vss) tr [] [] =
       (tr @ rowEvents (length vss) @ [RowsNext],
        Inr (map (\<lambda>vs. fmtv (vs ! 0)) vss, map (\<lambda>vs. Join (map fmtv (drop 1 vs)) '' '') vss))"
    using rowsLoop_all_Values [OF good, of fmtv tr "[]" "[]"] by simp
  show "Join (map fmtv [c1]) '' '' = fmtv c1" by simp
  show "Join (map fmtv (c1 # c2 # cs)) '' '' = fmtv c1 @ '' '' @ Join (map fmtv (c2 # cs)) '' ''"
    by simp
  assume short: "length short < 2"
  show loop: "rowsLoop fmtv (map Values vss @ Values short # rest) tr [] [] =
          (tr @ rowEvents (length vss) @ [RowsNext, RowColumns, RowScan],
           Inl (Fatal (columnsMsg (length short))))" for tr
    using rowsLoop_short [OF good short, of fmtv rest tr "[]" "[]"] by simp
  assume run: "sql_Open w dbPath = None \<and>
         db_Exec w [SqlOpen dbPath] (createTableStmt (flag_table cmd)) = None \<and>
         flag_sql cmd \<noteq> '''' \<and>
         attachStep w (flag_attach cmd) [SqlOpen dbPath, DbExec (createTableStmt (flag_table cmd))] = (h, Inr ()) \<and>
         Sprintf_v w = fmtv \<and>
         db_Query w h (flag_sql cmd) = Inr (map Values vss @ Values short # rest, rowsErr)"
  then show "embedModeDB w cmd args dbPath =
           (h @ [DbQuery (flag_sql cmd)] @ rowEvents (length vss) @ [RowsNext, RowColumns, RowScan],
            Inl (Fatal (columnsMsg (length short))))"
    using embedModeDB_rows [of w dbPath cmd h "()" "map Values vss @ Values short # rest" rowsErr args]
      loop [of "h @ [DbQuery (flag_sql cmd)]"]
    by simp
qed

text \<open>
  The claim at a query that answers with the rows \<open>(1, hello, world)\<close>, \<open>(2, bye)\<close> and then
  a row of one column, \<open>(3)\<close>: the first two rows give the ids \<open>1\<close>, \<open>2\<close> and the texts
  \<open>hello world\<close>, \<open>bye\<close>; with the third row the run ends in the fatal error.
\<close>

theorem rowsLoop_id_text_witness:
  "rowsLoop (\<lambda>v. v) (map Values [[''1'', ''hello'', ''world''], [''2'', ''bye'']]) [] [] [] =
     ([RowsNext, RowColumns, RowScan, RowsNext, RowColumns, RowScan, RowsNext],
      Inr ([''1'', ''2''], [''hello world'', ''bye''])) \<and>
   embedModeDB
     \<lparr>sql_Open = \<lambda>p. None, db_Exec = \<lambda>h s. None,
      db_Query = \<lambda>h q. Inr (map Values [[''1'', ''hello'', ''world''], [''2'', ''bye'']]
                              @ Values [''3''] # [Values [''4'', ''never read'']], None),
      Sprintf_v = \<lambda>v. v\<rparr>
     \<lparr>flag_table = ''embeddings'', flag_sql = ''select id, a, b from docs'', flag_attach = []\<rparr>
     [] ''out.db'' =
     ([SqlOpen ''out.db'', DbExec (createTableStmt ''embeddings''), DbQuery ''select id, a, b from docs'',
       RowsNext, RowColumns, RowScan, RowsNext, RowColumns, RowScan, RowsNext, RowColumns, RowScan],
      Inl (Fatal ''expect at least 2 columns from query; got 1''))"
proof -
  let ?vss = "[[''1'', ''hello'', ''world''], [''2'', ''bye'']]"
  let ?w = "\<lparr>sql_Open = \<lambda>p. None, db_Exec = \<lambda>h s. None,
      db_Query = \<lambda>h q. Inr (map Values ?vss @ Values [''3''] # [Values [''4'', ''never read'']], None),
      Sprintf_v = \<lambda>v. v\<rparr> :: string world"
  let ?cmd = "\<lparr>flag_table = ''embeddings'', flag_sql = ''select id, a, b from docs'', flag_attach = []\<rparr>"
  have good: "\<forall>vs\<in>set ?vss. 2 \<le> length vs" by simp
  have short: "length [''3''] < 2" by simp
  have reach: "sql_Open ?w ''out.db'' = None \<and>
         db_Exec ?w [SqlOpen ''out.db''] (createTableStmt (flag_table ?cmd)) = None \<and>
         flag_sql ?cmd \<noteq> '''' \<and>
         attachStep ?w (flag_attach ?cmd) [SqlOpen ''out.db'', DbExec (createTableStmt (flag_table ?cmd))]
           = ([SqlOpen ''out.db'', DbExec (createTableStmt (flag_table ?cmd))], Inr ()) \<and>
         Sprintf_v ?w = (\<lambda>v. v) \<and>
         db_Query ?w [SqlOpen ''out.db'', DbExec (createTableStmt (flag_table ?cmd))] (flag_sql ?cmd)
           = Inr (map Values ?vss @ Values [''3''] # [Values [''4'', ''never read'']], None)"
    by (simp add: attachStep_def)
  from rowsLoop_id_text [of ?vss "\<lambda>v. v" "[]" "''x''" "''y''" "[]" "[''3'']" "[Values [''4'', ''never read'']]"
      ?w "''out.db''" ?cmd "[SqlOpen ''out.db'', DbExec (createTableStmt (flag_table ?cmd))]" None "[]"]
    good short reach
  show ?thesis
    by (simp add: rowEvents_def columnsMsg_def)
qed

text \<open>
  Claim C6. The pipeline has no failure recovery: an error at any step ends the run at that
  step. The steps are: opening the database, creating the table, attaching a database,
  running the query, reading a row (\<open>row.Scan\<close>, and \<open>row.Columns\<close>, where the code panics)
  and iterating the rows (\<open>rows.Err\<close>). In each case the trace of the run ends with the
  failing operation, the result is the error, and nothing is retried, replaced or
  continued: the rows after a failing row are not read and nothing is printed.
\<close>

theorem embedModeDB_aborts_at_error:
  "(sql_Open w dbPath = Some err \<longrightarrow>
      embedModeDB w cmd args dbPath = ([SqlOpen dbPath], Inl (Fatal (''unable to open DB at '' @ dbPath)))) \<and>
   (sql_Open w dbPath = None \<longrightarrow>
      (db_Exec w [SqlOpen dbPath] (createTableStmt (flag_table cmd)) = Some err \<longrightarrow>
         embedModeDB w cmd args dbPath =
           ([SqlOpen dbPath, DbExec (createTableStmt (flag_table cmd))],
            Inl (Fatal (''unable to create table in DB: '' @ flag_table cmd)))) \<and>
      (db_Exec w [SqlOpen dbPath] (createTableStmt (flag_table cmd)) = None \<and> flag_sql cmd \<noteq> '''' \<longrightarrow>
         (flag_attach cmd = [alias, path] \<and>
          db_Exec w [SqlOpen dbPath, DbExec (createTableStmt (flag_table cmd))] (attachStmt path alias) = Some err \<longrightarrow>
            embedModeDB w cmd args dbPath =
              ([SqlOpen dbPath, DbExec (createTableStmt (flag_table cmd)), DbExec (attachStmt path alias)],
               Inl (Fatal (''unable to attach '' @ path @ '': '' @ err)))) \<and>
         (attachStep w (flag_attach cmd) [SqlOpen dbPath, DbExec (createTableStmt (flag_table cmd))] = (h, Inr ()) \<longrightarrow>
            (db_Query w h (flag_sql cmd) = Inl err \<longrightarrow>
               embedModeDB w cmd args dbPath =
                 (h @ [DbQuery (flag_sql cmd)], Inl (Fatal (''error running SQL query:'' @ err)))) \<and>
            ((\<forall>vs\<in>set vss. 2 \<le> length vs) \<longrightarrow>
               (db_Query w h (flag_sql cmd) = Inr (map Values vss @ ScanErr err # rest, rowsErr) \<longrightarrow>
                  embedModeDB w cmd args dbPath =
                    (h @ [DbQuery (flag_sql cmd)] @ rowEvents (length vss) @ [RowsNext, RowColumns, RowScan],
                     Inl (Fatal (''error scanning row:'' @ err)))) \<and>
               (db_Query w h (flag_sql cmd) = Inr (map Values vss @ ColumnsErr err # rest, rowsErr) \<longrightarrow>
                  embedModeDB w cmd args dbPath =
                    (h @ [DbQuery (flag_sql cmd)] @ rowEvents (length vss) @ [RowsNext, RowColumns],
                     Inl (Panic err))) \<and>
               (db_Query w h (flag_sql cmd) = Inr (map Values vss, Some err) \<longrightarrow>
                  embedModeDB w cmd args dbPath =
                    (h @ [DbQuery (flag_sql cmd)] @ rowEvents (length vss) @ [RowsNext, RowsErr],
                     Inl (Fatal (''error scanning DB:'' @ err))))))))"
proof (intro conjI impI; (elim conjE)?)
  assume "sql_Open w dbPath = Some err"
  then show "embedModeDB w cmd args dbPath = ([SqlOpen dbPath], Inl (Fatal (''unable to open DB at '' @ dbPath)))"
    by (rule embedModeDB_open_fails)
next
  assume "sql_Open w dbPath = None"
    and "db_Exec w [SqlOpen dbPath] (createTableStmt (flag_table cmd)) = Some err"
  then show "embedModeDB w cmd args dbPath =
           ([SqlOpen dbPath, DbExec (createTableStmt (flag_table cmd))],
            Inl (Fatal (''unable to create table in DB: '' @ flag_table cmd)))"
    by (rule embedModeDB_create_fails)
next
  assume start: "sql_Open w dbPath = None"
      "db_Exec w [SqlOpen dbPath] (createTableStmt (flag_table cmd)) = None" "flag_sql cmd \<noteq> ''''"
    and att: "flag_attach cmd = [alias, path]"
      "db_Exec w [SqlOpen dbPath, DbExec (createTableStmt (flag_table cmd))] (attachStmt path alias) = Some err"
  have "sqlBranch w (flag_attach cmd) (flag_sql cmd) [SqlOpen dbPath, DbExec (createTableStmt (flag_table cmd))]
      = ([SqlOpen dbPath, DbExec (createTableStmt (flag_table cmd)), DbExec (attachStmt path alias)],
         Inl (Fatal (''unable to attach '' @ path @ '': '' @ err)))"
    by (rule sqlBranch_attach_fails) (simp add: att attachStep_pair)
  then show "embedModeDB w cmd args dbPath =
              ([SqlOpen dbPath, DbExec (createTableStmt (flag_table cmd)), DbExec (attachStmt path alias)],
               Inl (Fatal (''unable to attach '' @ path @ '': '' @ err)))"
    by (simp add: embedModeDB_sql [OF start])
next
  assume start: "sql_Open w dbPath = None"
      "db_Exec w [SqlOpen dbPath] (createTableStmt (flag_table cmd)) = None" "flag_sql cmd \<noteq> ''''"
    and att: "attachStep w (flag_attach cmd) [SqlOpen dbPath, DbExec (createTableStmt (flag_table cmd))] = (h, Inr ())"
    and q: "db_Query w h (flag_sql cmd) = Inl err"
  show "embedModeDB w cmd args dbPath =
                 (h @ [DbQuery (flag_sql cmd)], Inl (Fatal (''error running SQL query:'' @ err)))"
    by (simp add: embedModeDB_sql [OF start] sqlBranch_query_fails [OF att q])
next
  assume start: "sql_Open w dbPath = None"
      "db_Exec w [SqlOpen dbPath] (createTableStmt (flag_table cmd)) = None" "flag_sql cmd \<noteq> ''''"
    and att: "attachStep w (flag_attach cmd) [SqlOpen dbPath, DbExec (createTableStmt (flag_table cmd))] = (h, Inr ())"
    and good: "\<forall>vs\<in>set vss. 2 \<le> length vs"
    and q: "db_Query w h (flag_sql cmd) = Inr (map Values vss @ ScanErr err # rest, rowsErr)"
  show "embedModeDB w cmd args dbPath =
                    (h @ [DbQuery (flag_sql cmd)] @ rowEvents (length vss) @ [RowsNext, RowColumns, RowScan],
                     Inl (Fatal (''error scanning row:'' @ err)))"
    by (simp add: embedModeDB_rows [OF start att q] rowsLoop_ScanErr [OF good])
next
  assume start: "sql_Open w dbPath = None"
      "db_Exec w [SqlOpen dbPath] (createTableStmt (flag_table cmd)) = None" "flag_sql cmd \<noteq> ''''"
    and att: "attachStep w (flag_attach cmd) [SqlOpen dbPath, DbExec (createTableStmt (flag_table cmd))] = (h, Inr ())"
    and good: "\<forall>vs\<in>set vss. 2 \<le> length vs"
    and q: "db_Query w h (flag_sql cmd) = Inr (map Values vss @ ColumnsErr err # rest, rowsErr)"
  show "embedModeDB w cmd args dbPath =
                    (h @ [DbQuery (flag_sql cmd)] @ rowEvents (length vss) @ [RowsNext, RowColumns],
                     Inl (Panic err))"
    by (simp add: embedModeDB_rows [OF start att q] rowsLoop_ColumnsErr [OF good])
next
  assume start: "sql_Open w dbPath = None"
      "db_Exec w [SqlOpen dbPath] (createTableStmt (flag_table cmd)) = None" "flag_sql cmd \<noteq> ''''"
    and att: "attachStep w (flag_attach cmd) [SqlOpen dbPath, DbExec (createTableStmt (flag_table cmd))] = (h, Inr ())"
    and good: "\<forall>vs\<in>set vss. 2 \<le> length vs"
    and q: "db_Query w h (flag_sql cmd) = Inr (map Values vss, Some err)"
  show "embedModeDB w cmd args dbPath =
                    (h @ [DbQuery (flag_sql cmd)] @ rowEvents (length vss) @ [RowsNext, RowsErr],
                     Inl (Fatal (''error scanning DB:'' @ err)))"
    by (simp add: embedModeDB_rows [OF start att q] rowsLoop_all_Values [OF good])
qed

text \<open>
  The claim at seven runs on \<open>out.db\<close> with the query \<open>select id, body from docs\<close>, one for
  each step that can fail; where nothing else is said, every step before it succeeds. In
  the fifth and the sixth run the second row fails, and the third row is never read.
\<close>

theorem embedModeDB_aborts_at_error_witness:
  "embedModeDB
     \<lparr>sql_Open = \<lambda>p. Some ''boom'', db_Exec = \<lambda>h s. None, db_Query = \<lambda>h q. Inr ([], None),
      Sprintf_v = \<lambda>v :: string. v\<rparr>
     \<lparr>flag_table = ''embeddings'', flag_sql = ''select id, body from docs'', flag_attach = []\<rparr> [] ''out.db''
     = ([SqlOpen ''out.db''], Inl (Fatal ''unable to open DB at out.db'')) \<and>
   embedModeDB
     \<lparr>sql_Open = \<lambda>p. None, db_Exec = \<lambda>h s. Some ''boom'', db_Query = \<lambda>h q. Inr ([], None),
      Sprintf_v = \<lambda>v :: string. v\<rparr>
     \<lparr>flag_table = ''embeddings'', flag_sql = ''select id, body from docs'', flag_attach = []\<rparr> [] ''out.db''
     = ([SqlOpen ''out.db'', DbExec (createTableStmt ''embeddings'')],
        Inl (Fatal ''unable to create table in DB: embeddings'')) \<and>
   embedModeDB
     \<lparr>sql_Open = \<lambda>p. None, db_Exec = \<lambda>h s. if h = [SqlOpen ''out.db''] then None else Some ''boom'',
      db_Query = \<lambda>h q. Inr ([], None), Sprintf_v = \<lambda>v :: string. v\<rparr>
     \<lparr>flag_table = ''embeddings'', flag_sql = ''select id, body from docs'', flag_attach = [''aux'', ''aux.db'']\<rparr>
     [] ''out.db''
     = ([SqlOpen ''out.db'', DbExec (createTableStmt ''embeddings''), DbExec (attachStmt ''aux.db'' ''aux'')],
        Inl (Fatal ''unable to attach aux.db: boom'')) \<and>
   embedModeDB
     \<lparr>sql_Open = \<lambda>p. None, db_Exec = \<lambda>h s. None, db_Query = \<lambda>h q. Inl ''boom'',
      Sprintf_v = \<lambda>v :: string. v\<rparr>
     \<lparr>flag_table = ''embeddings'', flag_sql = ''select id, body from docs'', flag_attach = []\<rparr> [] ''out.db''
     = ([SqlOpen ''out.db'', DbExec (createTableStmt ''embeddings''), DbQuery ''select id, body from docs''],
        Inl (Fatal ''error running SQL query:boom'')) \<and>
   embedModeDB
     \<lparr>sql_Open = \<lambda>p. None, db_Exec = \<lambda>h s. None,
      db_Query = \<lambda>h q. Inr (map Values [[''1'', ''one'']] @ ScanErr ''boom'' # [Values [''3'', ''three'']], None),
      Sprintf_v = \<lambda>v :: string. v\<rparr>
     \<lparr>flag_table = ''embeddings'', flag_sql = ''select id, body from docs'', flag_attach = []\<rparr> [] ''out.db''
     = ([SqlOpen ''out.db'', DbExec (createTableStmt ''embeddings''), DbQuery ''select id, body from docs'',
         RowsNext, RowColumns, RowScan, RowsNext, RowColumns, RowScan],
        Inl (Fatal ''error scanning row:boom'')) \<and>
   embedModeDB
     \<lparr>sql_Open = \<lambda>p. None, db_Exec = \<lambda>h s. None,
      db_Query = \<lambda>h q. Inr (map Values [[''1'', ''one'']] @ ColumnsErr ''boom'' # [Values [''3'', ''three'']], None),
      Sprintf_v = \<lambda>v :: string. v\<rparr>
     \<lparr>flag_table = ''embeddings'', flag_sql = ''select id, body from docs'', flag_attach = []\<rparr> [] ''out.db''
     = ([SqlOpen ''out.db'', DbExec (createTableStmt ''embeddings''), DbQuery ''select id, body from docs'',
         RowsNext, RowColumns, RowScan, RowsNext, RowColumns],
        Inl (Panic ''boom'')) \<and>
   embedModeDB
     \<lparr>sql_Open = \<lambda>p. None, db_Exec = \<lambda>h s. None,
      db_Query = \<lambda>h q. Inr (map Values [[''1'', ''one'']], Some ''boom''),
      Sprintf_v = \<lambda>v :: string. v\<rparr>
     \<lparr>flag_table = ''embeddings'', flag_sql = ''select id, body from docs'', flag_attach = []\<rparr> [] ''out.db''
     = ([SqlOpen ''out.db'', DbExec (createTableStmt ''embeddings''), DbQuery ''select id, body from docs'',
         RowsNext, RowColumns, RowScan, RowsNext, RowsErr],
        Inl (Fatal ''error scanning DB:boom''))"
proof -
  let ?cmd = "\<lparr>flag_table = ''embeddings'', flag_sql = ''select id, body from docs'', flag_attach = []\<rparr>"
  let ?cmda = "\<lparr>flag_table = ''embeddings'', flag_sql = ''select id, body from docs'',
                flag_attach = [''aux'', ''aux.db'']\<rparr>"
  let ?tr1 = "[SqlOpen ''out.db'', DbExec (createTableStmt ''embeddings'')]"
  let ?vss = "[[''1'', ''one'']]"
  let ?rest = "[Values [''3'', ''three'']]"
  have good: "\<forall>vs\<in>set ?vss. 2 \<le> length vs" by simp
  have 1: "embedModeDB \<lparr>sql_Open = \<lambda>p. Some ''boom'', db_Exec = \<lambda>h s. None, db_Query = \<lambda>h q. Inr ([], None),
      Sprintf_v = \<lambda>v :: string. v\<rparr> ?cmd [] ''out.db''
     = ([SqlOpen ''out.db''], Inl (Fatal ''unable to open DB at out.db''))"
    using embedModeDB_aborts_at_error [where w = "\<lparr>sql_Open = \<lambda>p. Some ''boom'', db_Exec = \<lambda>h s. None,
      db_Query = \<lambda>h q. Inr ([], None), Sprintf_v = \<lambda>v :: string. v\<rparr>" and dbPath = "''out.db''"
      and err = "''boom''" and cmd = ?cmd and args = "[]"]
    by simp
  have 2: "embedModeDB \<lparr>sql_Open = \<lambda>p. None, db_Exec = \<lambda>h s. Some ''boom'', db_Query = \<lambda>h q. Inr ([], None),
      Sprintf_v = \<lambda>v :: string. v\<rparr> ?cmd [] ''out.db''
     = (?tr1, Inl (Fatal ''unable to create table in DB: embeddings''))"
    using embedModeDB_aborts_at_error [where w = "\<lparr>sql_Open = \<lambda>p. None, db_Exec = \<lambda>h s. Some ''boom'',
      db_Query = \<lambda>h q. Inr ([], None), Sprintf_v = \<lambda>v :: string. v\<rparr>" and dbPath = "''out.db''"
      and err = "''boom''" and cmd = ?cmd and args = "[]"]
    by simp
  have 3: "embedModeDB \<lparr>sql_Open = \<lambda>p. None,
      db_Exec = \<lambda>h s. if h = [SqlOpen ''out.db''] then None else Some ''boom'',
      db_Query = \<lambda>h q. Inr ([], None), Sprintf_v = \<lambda>v :: string. v\<rparr> ?cmda [] ''out.db''
     = (?tr1 @ [DbExec (attachStmt ''aux.db'' ''aux'')], Inl (Fatal ''unable to attach aux.db: boom''))"
    using embedModeDB_aborts_at_error [of "\<lparr>sql_Open = \<lambda>p. None,
      db_Exec = \<lambda>h s. if h = [SqlOpen ''out.db''] then None else Some ''boom'',
      db_Query = \<lambda>h q. Inr ([], None), Sprintf_v = \<lambda>v :: string. v\<rparr>" "''out.db''"
      "''boom''" ?cmda "[]" "''aux''" "''aux.db''"]
    by simp
  have 4: "embedModeDB \<lparr>sql_Open = \<lambda>p. None, db_Exec = \<lambda>h s. None, db_Query = \<lambda>h q. Inl ''boom'',
      Sprintf_v = \<lambda>v :: string. v\<rparr> ?cmd [] ''out.db''
     = (?tr1 @ [DbQuery ''select id, body from docs''], Inl (Fatal ''error running SQL query:boom''))"
    using embedModeDB_aborts_at_error [where w = "\<lparr>sql_Open = \<lambda>p. None, db_Exec = \<lambda>h s. None,
      db_Query = \<lambda>h q. Inl ''boom'', Sprintf_v = \<lambda>v :: string. v\<rparr>" and dbPath = "''out.db''"
      and err = "''boom''" and cmd = ?cmd and args = "[]" and h = ?tr1]
    by (simp add: attachStep_def)
  have 5: "embedModeDB \<lparr>sql_Open = \<lambda>p. None, db_Exec = \<lambda>h s. None,
      db_Query = \<lambda>h q. Inr (map Values ?vss @ ScanErr ''boom'' # ?rest, None),
      Sprintf_v = \<lambda>v :: string. v\<rparr> ?cmd [] ''out.db''
     = (?tr1 @ [DbQuery ''select id, body from docs''] @ rowEvents 1 @ [RowsNext, RowColumns, RowScan],
        Inl (Fatal ''error scanning row:boom''))"
    using embedModeDB_aborts_at_error [where w = "\<lparr>sql_Open = \<lambda>p. None, db_Exec = \<lambda>h s. None,
      db_Query = \<lambda>h q. Inr (map Values ?vss @ ScanErr ''boom'' # ?rest, None),
      Sprintf_v = \<lambda>v :: string. v\<rparr>" and dbPath = "''out.db''"
      and err = "''boom''" and cmd = ?cmd and args = "[]" and h = ?tr1 and vss = ?vss and rest = ?rest
      and rowsErr = None] good
    by (simp add: attachStep_def)
  have 6: "embedModeDB \<lparr>sql_Open = \<lambda>p. None, db_Exec = \<lambda>h s. None,
      db_Query = \<lambda>h q. Inr (map Values ?vss @ ColumnsErr ''boom'' # ?rest, None),
      Sprintf_v = \<lambda>v :: string. v\<rparr> ?cmd [] ''out.db''
     = (?tr1 @ [DbQuery ''select id, body from docs''] @ rowEvents 1 @ [RowsNext, RowColumns],
        Inl (Panic ''boom''))"
    using embedModeDB_aborts_at_error [where w = "\<lparr>sql_Open = \<lambda>p. None, db_Exec = \<lambda>h s. None,
      db_Query = \<lambda>h q. Inr (map Values ?vss @ ColumnsErr ''boom'' # ?rest, None),
      Sprintf_v = \<lambda>v :: string. v\<rparr>" and dbPath = "''out.db''"
      and err = "''boom''" and cmd = ?cmd and args = "[]" and h = ?tr1 and vss = ?vss and rest = ?rest
      and rowsErr = None] good
    by (simp add: attachStep_def)
  have 7: "embedModeDB \<lparr>sql_Open = \<lambda>p. None, db_Exec = \<lambda>h s. None,
      db_Query = \<lambda>h q. Inr (map Values ?vss, Some ''boom''),
      Sprintf_v = \<lambda>v :: string. v\<rparr> ?cmd [] ''out.db''
     = (?tr1 @ [DbQuery ''select id, body from docs''] @ rowEvents 1 @ [RowsNext, RowsErr],
        Inl (Fatal ''error scanning DB:boom''))"
    using embedModeDB_aborts_at_error [where w = "\<lparr>sql_Open = \<lambda>p. None, db_Exec = \<lambda>h s. None,
      db_Query = \<lambda>h q. Inr (map Values ?vss, Some ''boom''),
      Sprintf_v = \<lambda>v :: string. v\<rparr>" and dbPath = "''out.db''"
      and err = "''boom''" and cmd = ?cmd and args = "[]" and h = ?tr1 and vss = ?vss] good
    by (simp add: attachStep_def)
  from 1 2 3 4 5 6 7 show ?thesis
    by (simp add: rowEvents_def)
qed

text \<open>
  Claim C5 as the code has it. The claim says that an \<open>--attach\<close> value that is not a pair
  of exactly two elements aborts the run. The flag is a string slice, and \<open>--attach ''\<close> is
  the slice without elements: the block under \<open>if len(attachPair) > 0\<close> is skipped, and the
  run below goes on to the query, reads its row, prints and returns.
\<close>

theorem embedModeDB_empty_attach_continues:
  "embedModeDB
     \<lparr>sql_Open = \<lambda>p. None, db_Exec = \<lambda>h s. None,
      db_Query = \<lambda>h q. Inr ([Values [''5'', ''five'']], None),
      Sprintf_v = \<lambda>v :: string. v\<rparr>
     \<lparr>flag_table = ''embeddings'', flag_sql = ''select id, body from docs'', flag_attach = []\<rparr>
     [] ''out.db''
     = ([SqlOpen ''out.db'', DbExec (createTableStmt ''embeddings''), DbQuery ''select id, body from docs'',
         RowsNext, RowColumns, RowScan, RowsNext, RowsErr,
         Stdout (''[5]'' @ [CHR 0x0A]), Stdout (''[five]'' @ [CHR 0x0A])],
        Inr ())"
  by (simp add: embedModeDB_def sqlBranch_def attachStep_def scanRowIntoSlice_def Println_strings_def)

text \<open>
  Claim C5, amended. In SQL mode a second database can be attached into the session of the
  query. With \<open>--attach alias,path\<close>, and the database opened and the table created, the
  statement made of \<open>ATTACH DATABASE '\<close>, the path, \<open>' as \<close> and the alias is executed on the
  database next, and, when it succeeds, the query follows it at once on the same handle; the
  answer that the run uses is the one the database gives after the \<open>ATTACH\<close>. An \<open>--attach\<close>
  value of one element, or of three or more, aborts the run: no query is run, and unless the
  run has failed even earlier the error is \<open>expect <alias>,<db path> pair for --attach\<close>. An
  \<open>--attach\<close> value without elements aborts nothing and attaches nothing: the query is the
  first operation after the creation of the table, and the run uses its answer.
\<close>

theorem embedModeDB_attach:
  "(flag_sql cmd \<noteq> '''' \<and> flag_attach cmd \<noteq> [] \<and> length (flag_attach cmd) \<noteq> 2 \<longrightarrow>
      (\<exists>tr e. embedModeDB w cmd args dbPath = (tr, Inl e) \<and> DbQuery (flag_sql cmd) \<notin> set tr)) \<and>
   (sql_Open w dbPath = None \<and>
    db_Exec w [SqlOpen dbPath] (createTableStmt (flag_table cmd)) = None \<and> flag_sql cmd \<noteq> '''' \<longrightarrow>
      (flag_attach cmd \<noteq> [] \<and> length (flag_attach cmd) \<noteq> 2 \<longrightarrow>
         embedModeDB w cmd args dbPath =
           ([SqlOpen dbPath, DbExec (createTableStmt (flag_table cmd))],
            Inl (Fatal ''expect <alias>,<db path> pair for --attach''))) \<and>
      (flag_attach cmd = [] \<longrightarrow>
         (\<exists>tr' r. embedModeDB w cmd args dbPath =
            ([SqlOpen dbPath, DbExec (createTableStmt (flag_table cmd)), DbQuery (flag_sql cmd)] @ tr', r)) \<and>
         ((\<forall>vs\<in>set vss. 2 \<le> length vs) \<and>
          db_Query w [SqlOpen dbPath, DbExec (createTableStmt (flag_table cmd))] (flag_sql cmd)
            = Inr (map Values vss, None) \<longrightarrow>
            embedModeDB w cmd args dbPath =
              ([SqlOpen dbPath, DbExec (createTableStmt (flag_table cmd)), DbQuery (flag_sql cmd)]
               @ rowEvents (length vss) @
               [RowsNext, RowsErr,
                Stdout (Println_strings (map (\<lambda>vs. Sprintf_v w (vs ! 0)) vss)),
                Stdout (Println_strings (map (\<lambda>vs. Join (map (Sprintf_v w) (drop 1 vs)) '' '') vss))],
               Inr ()))) \<and>
      (flag_attach cmd = [alias, path] \<and>
       db_Exec w [SqlOpen dbPath, DbExec (createTableStmt (flag_table cmd))]
         (''ATTACH DATABASE '' @ [CHR 0x27] @ path @ [CHR 0x27] @ '' as '' @ alias) = None \<longrightarrow>
         (\<exists>tr' r. embedModeDB w cmd args dbPath =
            ([SqlOpen dbPath, DbExec (createTableStmt (flag_table cmd)),
              DbExec (''ATTACH DATABASE '' @ [CHR 0x27] @ path @ [CHR 0x27] @ '' as '' @ alias),
              DbQuery (flag_sql cmd)] @ tr', r)) \<and>
         ((\<forall>vs\<in>set vss. 2 \<le> length vs) \<and>
          db_Query w [SqlOpen dbPath, DbExec (createTableStmt (flag_table cmd)),
                      DbExec (''ATTACH DATABASE '' @ [CHR 0x27] @ path @ [CHR 0x27] @ '' as '' @ alias)]
            (flag_sql cmd) = Inr (map Values vss, None) \<longrightarrow>
            embedModeDB w cmd args dbPath =
              ([SqlOpen dbPath, DbExec (createTableStmt (flag_table cmd)),
                DbExec (''ATTACH DATABASE '' @ [CHR 0x27] @ path @ [CHR 0x27] @ '' as '' @ alias),
                DbQuery (flag_sql cmd)] @ rowEvents (length vss) @
               [RowsNext, RowsErr,
                Stdout (Println_strings (map (\<lambda>vs. Sprintf_v w (vs ! 0)) vss)),
                Stdout (Println_strings (map (\<lambda>vs. Join (map (Sprintf_v w) (drop 1 vs)) '' '') vss))],
               Inr ()))))"
proof (intro conjI impI; (elim conjE)?)
  assume "flag_sql cmd \<noteq> ''''" "flag_attach cmd \<noteq> []" "length (flag_attach cmd) \<noteq> 2"
  then show "\<exists>tr e. embedModeDB w cmd args dbPath = (tr, Inl e) \<and> DbQuery (flag_sql cmd) \<notin> set tr"
    by (rule embedModeDB_bad_attach_aborts)
next
  assume start: "sql_Open w dbPath = None"
      "db_Exec w [SqlOpen dbPath] (createTableStmt (flag_table cmd)) = None" "flag_sql cmd \<noteq> ''''"
    and bad: "flag_attach cmd \<noteq> []" "length (flag_attach cmd) \<noteq> 2"
  show "embedModeDB w cmd args dbPath =
           ([SqlOpen dbPath, DbExec (createTableStmt (flag_table cmd))],
            Inl (Fatal ''expect <alias>,<db path> pair for --attach''))"
    by (simp add: embedModeDB_sql [OF start] sqlBranch_attach_fails [OF attachStep_bad [OF bad]])
next
  assume start: "sql_Open w dbPath = None"
      "db_Exec w [SqlOpen dbPath] (createTableStmt (flag_table cmd)) = None" "flag_sql cmd \<noteq> ''''"
    and att: "flag_attach cmd = []"
  have step: "attachStep w (flag_attach cmd) [SqlOpen dbPath, DbExec (createTableStmt (flag_table cmd))]
      = ([SqlOpen dbPath, DbExec (createTableStmt (flag_table cmd))], Inr ())"
    by (simp add: att attachStep_def)
  from embedModeDB_query_trace [OF start step, of args]
  show "\<exists>tr' r. embedModeDB w cmd args dbPath =
            ([SqlOpen dbPath, DbExec (createTableStmt (flag_table cmd)), DbQuery (flag_sql cmd)] @ tr', r)"
    by simp
next
  assume start: "sql_Open w dbPath = None"
      "db_Exec w [SqlOpen dbPath] (createTableStmt (flag_table cmd)) = None" "flag_sql cmd \<noteq> ''''"
    and att: "flag_attach cmd = []"
    and good: "\<forall>vs\<in>set vss. 2 \<le> length vs"
    and q: "db_Query w [SqlOpen dbPath, DbExec (createTableStmt (flag_table cmd))] (flag_sql cmd)
            = Inr (map Values vss, None)"
  have step: "attachStep w (flag_attach cmd) [SqlOpen dbPath, DbExec (createTableStmt (flag_table cmd))]
      = ([SqlOpen dbPath, DbExec (createTableStmt (flag_table cmd))], Inr ())"
    by (simp add: att attachStep_def)
  from embedModeDB_good_run [OF start step good q, of args]
  show "embedModeDB w cmd args dbPath =
              ([SqlOpen dbPath, DbExec (createTableStmt (flag_table cmd)), DbQuery (flag_sql cmd)]
               @ rowEvents (length vss) @
               [RowsNext, RowsErr,
                Stdout (Println_strings (map (\<lambda>vs. Sprintf_v w (vs ! 0)) vss)),
                Stdout (Println_strings (map (\<lambda>vs. Join (map (Sprintf_v w) (drop 1 vs)) '' '') vss))],
               Inr ())"
    by simp
next
  let ?stmt = "''ATTACH DATABASE '' @ [CHR 0x27] @ path @ [CHR 0x27] @ '' as '' @ alias"
  assume start: "sql_Open w dbPath = None"
      "db_Exec w [SqlOpen dbPath] (createTableStmt (flag_table cmd)) = None" "flag_sql cmd \<noteq> ''''"
    and att: "flag_attach cmd = [alias, path]"
      "db_Exec w [SqlOpen dbPath, DbExec (createTableStmt (flag_table cmd))] ?stmt = None"
  have stmt: "attachStmt path alias = ?stmt"
    by (simp add: attachStmt_def)
  have step: "attachStep w (flag_attach cmd) [SqlOpen dbPath, DbExec (createTableStmt (flag_table cmd))]
      = ([SqlOpen dbPath, DbExec (createTableStmt (flag_table cmd)), DbExec ?stmt], Inr ())"
    using att by (simp add: attachStep_pair stmt)
  from embedModeDB_query_trace [OF start step, of args]
  show "\<exists>tr' r. embedModeDB w cmd args dbPath =
            ([SqlOpen dbPath, DbExec (createTableStmt (flag_table cmd)), DbExec ?stmt,
              DbQuery (flag_sql cmd)] @ tr', r)"
    by simp
next
  let ?stmt = "''ATTACH DATABASE '' @ [CHR 0x27] @ path @ [CHR 0x27] @ '' as '' @ alias"
  assume start: "sql_Open w dbPath = None"
      "db_Exec w [SqlOpen dbPath] (createTableStmt (flag_table cmd)) = None" "flag_sql cmd \<noteq> ''''"
    and att: "flag_attach cmd = [alias, path]"
      "db_Exec w [SqlOpen dbPath, DbExec (createTableStmt (flag_table cmd))] ?stmt = None"
    and good: "\<forall>vs\<in>set vss. 2 \<le> length vs"
    and q: "db_Query w [SqlOpen dbPath, DbExec (createTableStmt (flag_table cmd)), DbExec ?stmt]
            (flag_sql cmd) = Inr (map Values vss, None)"
  have stmt: "attachStmt path alias = ?stmt"
    by (simp add: attachStmt_def)
  have step: "attachStep w (flag_attach cmd) [SqlOpen dbPath, DbExec (createTableStmt (flag_table cmd))]
      = ([SqlOpen dbPath, DbExec (createTableStmt (flag_table cmd)), DbExec ?stmt], Inr ())"
    using att by (simp add: attachStep_pair stmt)
  from embedModeDB_good_run [OF start step good q, of args]
  show "embedModeDB w cmd args dbPath =
              ([SqlOpen dbPath, DbExec (createTableStmt (flag_table cmd)), DbExec ?stmt,
                DbQuery (flag_sql cmd)] @ rowEvents (length vss) @
               [RowsNext, RowsErr,
                Stdout (Println_strings (map (\<lambda>vs. Sprintf_v w (vs ! 0)) vss)),
                Stdout (Println_strings (map (\<lambda>vs. Join (map (Sprintf_v w) (drop 1 vs)) '' '') vss))],
               Inr ())"
    by simp
qed

text \<open>
  The amended claim at four runs. With \<open>--attach src,/data/notes.db\<close> the database answers
  the query with a row only once exactly the statement \<open>ATTACH DATABASE '/data/notes.db' as
  src\<close> is in the session, and the run prints that row. With \<open>--attach aux,aux.db,more\<close> and
  with \<open>--attach aux\<close> the run aborts before any query. With an \<open>--attach\<close> value without
  elements the query is run on a session in which nothing is attached, and its row is
  printed.
\<close>

theorem embedModeDB_attach_witness:
  "embedModeDB
     \<lparr>sql_Open = \<lambda>p. None, db_Exec = \<lambda>h s. None,
      db_Query = \<lambda>h q. if DbExec (''ATTACH DATABASE '' @ [CHR 0x27] @ ''/data/notes.db'' @ [CHR 0x27] @ '' as src'') \<in> set h
                         then Inr (map Values [[''7'', ''seven'']], None) else Inl ''no such table: src.docs'',
      Sprintf_v = \<lambda>v :: string. v\<rparr>
     \<lparr>flag_table = ''embeddings'', flag_sql = ''select id, body from src.docs'',
      flag_attach = [''src'', ''/data/notes.db'']\<rparr> [] ''out.db''
     = ([SqlOpen ''out.db'', DbExec (createTableStmt ''embeddings''),
         DbExec (''ATTACH DATABASE '' @ [CHR 0x27] @ ''/data/notes.db'' @ [CHR 0x27] @ '' as src''),
         DbQuery ''select id, body from src.docs'',
         RowsNext, RowColumns, RowScan, RowsNext, RowsErr,
         Stdout (''[7]'' @ [CHR 0x0A]), Stdout (''[seven]'' @ [CHR 0x0A])],
        Inr ()) \<and>
   embedModeDB
     \<lparr>sql_Open = \<lambda>p. None, db_Exec = \<lambda>h s. None,
      db_Query = \<lambda>h q. Inr (map Values [[''7'', ''seven'']], None),
      Sprintf_v = \<lambda>v :: string. v\<rparr>
     \<lparr>flag_table = ''embeddings'', flag_sql = ''select id, body from src.docs'',
      flag_attach = [''aux'', ''aux.db'', ''more'']\<rparr> [] ''out.db''
     = ([SqlOpen ''out.db'', DbExec (createTableStmt ''embeddings'')],
        Inl (Fatal ''expect <alias>,<db path> pair for --attach'')) \<and>
   embedModeDB
     \<lparr>sql_Open = \<lambda>p. None, db_Exec = \<lambda>h s. None,
      db_Query = \<lambda>h q. Inr (map Values [[''7'', ''seven'']], None),
      Sprintf_v = \<lambda>v :: string. v\<rparr>
     \<lparr>flag_table = ''embeddings'', flag_sql = ''select id, body from src.docs'',
      flag_attach = [''aux'']\<rparr> [] ''out.db''
     = ([SqlOpen ''out.db'', DbExec (createTableStmt ''embeddings'')],
        Inl (Fatal ''expect <alias>,<db path> pair for --attach'')) \<and>
   embedModeDB
     \<lparr>sql_Open = \<lambda>p. None, db_Exec = \<lambda>h s. None,
      db_Query = \<lambda>h q. if h = [SqlOpen ''store.db'', DbExec (createTableStmt ''vectors'')]
                         then Inr (map Values [[''8'', ''eight'']], None) else Inl ''busy'',
      Sprintf_v = \<lambda>v :: string. v\<rparr>
     \<lparr>flag_table = ''vectors'', flag_sql = ''select id, body from docs'', flag_attach = []\<rparr> [] ''store.db''
     = ([SqlOpen ''store.db'', DbExec (createTableStmt ''vectors''), DbQuery ''select id, body from docs'',
         RowsNext, RowColumns, RowScan, RowsNext, RowsErr,
         Stdout (''[8]'' @ [CHR 0x0A]), Stdout (''[eight]'' @ [CHR 0x0A])],
        Inr ())"
proof -
  let ?wa = "\<lparr>sql_Open = \<lambda>p. None, db_Exec = \<lambda>h s. None,
      db_Query = \<lambda>h q. if DbExec (''ATTACH DATABASE '' @ [CHR 0x27] @ ''/data/notes.db'' @ [CHR 0x27] @ '' as src'') \<in> set h
                         then Inr (map Values [[''7'', ''seven'']], None) else Inl ''no such table: src.docs'',
      Sprintf_v = \<lambda>v :: string. v\<rparr>"
  let ?wb = "\<lparr>sql_Open = \<lambda>p. None, db_Exec = \<lambda>h s. None,
      db_Query = \<lambda>h q. Inr (map Values [[''7'', ''seven'']], None),
      Sprintf_v = \<lambda>v :: string. v\<rparr>"
  let ?we = "\<lparr>sql_Open = \<lambda>p. None, db_Exec = \<lambda>h s. None,
      db_Query = \<lambda>h q. if h = [SqlOpen ''store.db'', DbExec (createTableStmt ''vectors'')]
                         then Inr (map Values [[''8'', ''eight'']], None) else Inl ''busy'',
      Sprintf_v = \<lambda>v :: string. v\<rparr>"
  let ?cmdp = "\<lparr>flag_table = ''embeddings'', flag_sql = ''select id, body from src.docs'',
      flag_attach = [''src'', ''/data/notes.db'']\<rparr>"
  let ?cmdt = "\<lparr>flag_table = ''embeddings'', flag_sql = ''select id, body from src.docs'',
      flag_attach = [''aux'', ''aux.db'', ''more'']\<rparr>"
  let ?cmds = "\<lparr>flag_table = ''embeddings'', flag_sql = ''select id, body from src.docs'',
      flag_attach = [''aux'']\<rparr>"
  let ?cmde = "\<lparr>flag_table = ''vectors'', flag_sql = ''select id, body from docs'', flag_attach = []\<rparr>"
  have good: "\<forall>vs\<in>set [[''7'', ''seven'']]. 2 \<le> length vs" by simp
  have good_e: "\<forall>vs\<in>set [[''8'', ''eight'']]. 2 \<le> length vs" by simp
  have 1: "embedModeDB ?wa ?cmdp [] ''out.db''
     = ([SqlOpen ''out.db'', DbExec (createTableStmt ''embeddings''),
         DbExec (''ATTACH DATABASE '' @ [CHR 0x27] @ ''/data/notes.db'' @ [CHR 0x27] @ '' as src''),
         DbQuery ''select id, body from src.docs''] @ rowEvents 1 @
        [RowsNext, RowsErr, Stdout (Println_strings [''7'']), Stdout (Println_strings [''seven''])], Inr ())"
    using embedModeDB_attach [of ?cmdp ?wa "[]" "''out.db''" "[[''7'', ''seven'']]" "''src''" "''/data/notes.db''"] good
    by simp
  have 2: "embedModeDB ?wb ?cmdt [] ''out.db''
     = ([SqlOpen ''out.db'', DbExec (createTableStmt ''embeddings'')],
        Inl (Fatal ''expect <alias>,<db path> pair for --attach''))"
    using embedModeDB_attach [of ?cmdt ?wb "[]" "''out.db''"]
    by simp
  have 3: "embedModeDB ?wb ?cmds [] ''out.db''
     = ([SqlOpen ''out.db'', DbExec (createTableStmt ''embeddings'')],
        Inl (Fatal ''expect <alias>,<db path> pair for --attach''))"
    using embedModeDB_attach [of ?cmds ?wb "[]" "''out.db''"]
    by simp
  have 4: "embedModeDB ?we ?cmde [] ''store.db''
     = ([SqlOpen ''store.db'', DbExec (createTableStmt ''vectors''), DbQuery ''select id, body from docs'']
        @ rowEvents 1 @
        [RowsNext, RowsErr, Stdout (Println_strings [''8'']), Stdout (Println_strings [''eight''])], Inr ())"
    using embedModeDB_attach [of ?cmde ?we "[]" "''store.db''" "[[''8'', ''eight'']]"] good_e
    by simp
  from 1 2 3 4 show ?thesis
    by (simp add: rowEvents_def Println_strings_def)
qed

text \<open>
  Claim C3 as the code has it. The claim says that an embedding of every extracted text is
  computed and stored in the output table under the id; the run below extracts the pair
  \<open>(1, hello)\<close> and ends normally, and what it has done is all in its trace: after the query
  and the reading of the row it prints the ids and the texts, and it executes no statement
  on the database after \<open>CREATE TABLE\<close>.
\<close>

theorem embedModeDB_stores_no_embedding:
  "embedModeDB
     \<lparr>sql_Open = \<lambda>p. None, db_Exec = \<lambda>h s. None,
      db_Query = \<lambda>h q. Inr ([Values [''1'', ''hello'']], None),
      Sprintf_v = \<lambda>v :: string. v\<rparr>
     \<lparr>flag_table = ''embeddings'', flag_sql = ''select id, body from docs'', flag_attach = []\<rparr> [] ''out.db''
     = ([SqlOpen ''out.db'', DbExec (createTableStmt ''embeddings''), DbQuery ''select id, body from docs'',
         RowsNext, RowColumns, RowScan, RowsNext, RowsErr,
         Stdout (''[1]'' @ [CHR 0x0A]), Stdout (''[hello]'' @ [CHR 0x0A])],
        Inr ())"
  by (simp add: embedModeDB_def sqlBranch_def attachStep_def scanRowIntoSlice_def Println_strings_def)

text \<open>
  Claim C3, amended. In SQL mode, when every step succeeds and every row has at least two
  columns, the program collects the id and the text of every row, in row order, and after
  the last row prints the list of the ids and then the list of the texts on standard
  output, which ends the run. Whatever the database answers and whatever the flags are, the
  only statements a run executes on the database, the query apart, are \<open>CREATE TABLE IF NOT
  EXISTS\<close> and the \<open>ATTACH\<close> of \<open>--attach\<close>.
\<close>

theorem embedModeDB_collects_and_prints:
  "(sql_Open w dbPath = None \<and>
    db_Exec w [SqlOpen dbPath] (createTableStmt (flag_table cmd)) = None \<and>
    flag_sql cmd \<noteq> '''' \<and>
    attachStep w (flag_attach cmd) [SqlOpen dbPath, DbExec (createTableStmt (flag_table cmd))] = (h, Inr ()) \<and>
    (\<forall>vs\<in>set vss. 2 \<le> length vs) \<and>
    db_Query w h (flag_sql cmd) = Inr (map Values vss, None) \<longrightarrow>
      embedModeDB w cmd args dbPath =
        (h @ [DbQuery (flag_sql cmd)] @ rowEvents (length vss) @
           [RowsNext, RowsErr,
            Stdout (Println_strings (map (\<lambda>vs. Sprintf_v w (vs ! 0)) vss)),
            Stdout (Println_strings (map (\<lambda>vs. Join (map (Sprintf_v w) (drop 1 vs)) '' '') vss))],
         Inr ())) \<and>
   (\<forall>stmt. DbExec stmt \<in> set (fst (embedModeDB w cmd args dbPath)) \<longrightarrow>
      stmt = createTableStmt (flag_table cmd) \<or>
      (\<exists>alias path. flag_attach cmd = [alias, path] \<and> stmt = attachStmt path alias))"
proof (intro conjI impI allI; (elim conjE)?)
  assume "sql_Open w dbPath = None"
    and "db_Exec w [SqlOpen dbPath] (createTableStmt (flag_table cmd)) = None"
    and "flag_sql cmd \<noteq> ''''"
    and "attachStep w (flag_attach cmd) [SqlOpen dbPath, DbExec (createTableStmt (flag_table cmd))] = (h, Inr ())"
    and "\<forall>vs\<in>set vss. 2 \<le> length vs"
    and "db_Query w h (flag_sql cmd) = Inr (map Values vss, None)"
  then show "embedModeDB w cmd args dbPath =
        (h @ [DbQuery (flag_sql cmd)] @ rowEvents (length vss) @
           [RowsNext, RowsErr,
            Stdout (Println_strings (map (\<lambda>vs. Sprintf_v w (vs ! 0)) vss)),
            Stdout (Println_strings (map (\<lambda>vs. Join (map (Sprintf_v w) (drop 1 vs)) '' '') vss))],
         Inr ())"
    by (rule embedModeDB_good_run)
next
  fix stmt
  assume "DbExec stmt \<in> set (fst (embedModeDB w cmd args dbPath))"
  then show "stmt = createTableStmt (flag_table cmd) \<or>
      (\<exists>alias path. flag_attach cmd = [alias, path] \<and> stmt = attachStmt path alias)"
    by (rule embedModeDB_execs)
qed

text \<open>
  The amended claim at a query that answers with the rows \<open>(1, hello, world)\<close> and
  \<open>(2, bye)\<close>: the run prints \<open>[1 2]\<close> and \<open>[hello world bye]\<close>.
\<close>

theorem embedModeDB_collects_and_prints_witness:
  "embedModeDB
     \<lparr>sql_Open = \<lambda>p. None, db_Exec = \<lambda>h s. None,
      db_Query = \<lambda>h q. Inr (map Values [[''1'', ''hello'', ''world''], [''2'', ''bye'']], None),
      Sprintf_v = \<lambda>v :: string. v\<rparr>
     \<lparr>flag_table = ''embeddings'', flag_sql = ''select id, a, b from docs'', flag_attach = []\<rparr> [] ''out.db''
     = ([SqlOpen ''out.db'', DbExec (createTableStmt ''embeddings''), DbQuery ''select id, a, b from docs'',
         RowsNext, RowColumns, RowScan, RowsNext, RowColumns, RowScan, RowsNext, RowsErr,
         Stdout (''[1 2]'' @ [CHR 0x0A]), Stdout (''[hello world bye]'' @ [CHR 0x0A])],
        Inr ())"
proof -
  let ?vss = "[[''1'', ''hello'', ''world''], [''2'', ''bye'']]"
  let ?w = "\<lparr>sql_Open = \<lambda>p. None, db_Exec = \<lambda>h s. None,
      db_Query = \<lambda>h q. Inr (map Values ?vss, None), Sprintf_v = \<lambda>v :: string. v\<rparr>"
  let ?cmd = "\<lparr>flag_table = ''embeddings'', flag_sql = ''select id, a, b from docs'', flag_attach = []\<rparr>"
  let ?tr1 = "[SqlOpen ''out.db'', DbExec (createTableStmt ''embeddings'')]"
  have hyps: "sql_Open ?w ''out.db'' = None \<and>
    db_Exec ?w [SqlOpen ''out.db''] (createTableStmt (flag_table ?cmd)) = None \<and>
    flag_sql ?cmd \<noteq> '''' \<and>
    attachStep ?w (flag_attach ?cmd) [SqlOpen ''out.db'', DbExec (createTableStmt (flag_table ?cmd))]
      = (?tr1, Inr ()) \<and>
    (\<forall>vs\<in>set ?vss. 2 \<le> length vs) \<and>
    db_Query ?w ?tr1 (flag_sql ?cmd) = Inr (map Values ?vss, None)"
    by (simp add: attachStep_def)
  note inst = embedModeDB_collects_and_prints [of ?w "''out.db''" ?cmd ?tr1 ?vss "[]"]
  have run: "embedModeDB ?w ?cmd [] ''out.db''
     = (?tr1 @ [DbQuery (flag_sql ?cmd)] @ rowEvents (length ?vss) @
           [RowsNext, RowsErr,
            Stdout (Println_strings (map (\<lambda>vs. Sprintf_v ?w (vs ! 0)) ?vss)),
            Stdout (Println_strings (map (\<lambda>vs. Join (map (Sprintf_v ?w) (drop 1 vs)) '' '') ?vss))],
         Inr ())"
    by (rule inst [THEN conjunct1, THEN mp, OF hyps])
  have ev: "rowEvents (length ?vss) = [RowsNext, RowColumns, RowScan, RowsNext, RowColumns, RowScan]"
    by (simp add: rowEvents_def numeral_2_eq_2)
  show ?thesis
    unfolding run ev by (simp add: Println_strings_def)
qed

text \<open>
  Claim C4 as the code has it. The claim says that a run with the database path and no SQL
  query reads its inputs from the file system; the run below opens the database, creates
  the table and panics.
\<close>

theorem embedModeDB_without_sql_panics:
  "embedModeDB
     \<lparr>sql_Open = \<lambda>p. None, db_Exec = \<lambda>h s. None,
      db_Query = \<lambda>h q. Inr ([Values [''1'', ''hello'']], None),
      Sprintf_v = \<lambda>v :: string. v\<rparr>
     \<lparr>flag_table = ''embeddings'', flag_sql = '''', flag_attach = []\<rparr> [''notes.txt''] ''out.db''
     = ([SqlOpen ''out.db'', DbExec (createTableStmt ''embeddings'')], Inl (Panic ''only sql for now''))"
  by (simp add: embedModeDB_def)

text \<open>
  Claim C4, amended. In \<open>--db\<close> mode the identifiers and texts have one source, the rows of
  the SQL query (claims C3 and C9 say how). A run with the database path and without an
  SQL query reads no input: it opens the database, creates the table and then panics with
  \<open>only sql for now\<close>; it ends in an error in every case, and its trace holds nothing but
  the opening and the \<open>CREATE TABLE\<close> statement.
\<close>

theorem embedModeDB_sql_only:
  "flag_sql cmd = '''' \<longrightarrow>
     (\<exists>tr e. embedModeDB w cmd args dbPath = (tr, Inl e) \<and>
        set tr \<subseteq> {SqlOpen dbPath, DbExec (createTableStmt (flag_table cmd))}) \<and>
     (sql_Open w dbPath = None \<and> db_Exec w [SqlOpen dbPath] (createTableStmt (flag_table cmd)) = None \<longrightarrow>
        embedModeDB w cmd args dbPath =
          ([SqlOpen dbPath, DbExec (createTableStmt (flag_table cmd))], Inl (Panic ''only sql for now'')))"
proof (intro impI conjI; (elim conjE)?)
  assume sql: "flag_sql cmd = ''''"
  show "\<exists>tr e. embedModeDB w cmd args dbPath = (tr, Inl e) \<and>
        set tr \<subseteq> {SqlOpen dbPath, DbExec (createTableStmt (flag_table cmd))}"
  proof (cases "sql_Open w dbPath")
    case (Some err)
    then show ?thesis by (simp add: embedModeDB_open_fails)
  next
    case None
    note op = this
    show ?thesis
    proof (cases "db_Exec w [SqlOpen dbPath] (createTableStmt (flag_table cmd))")
      case (Some err)
      with op show ?thesis by (simp add: embedModeDB_create_fails)
    next
      case None
      with op sql show ?thesis by (simp add: embedModeDB_no_sql)
    qed
  qed
next
  assume "flag_sql cmd = ''''" "sql_Open w dbPath = None"
    "db_Exec w [SqlOpen dbPath] (createTableStmt (flag_table cmd)) = None"
  then show "embedModeDB w cmd args dbPath =
          ([SqlOpen dbPath, DbExec (createTableStmt (flag_table cmd))], Inl (Panic ''only sql for now''))"
    by (simp add: embedModeDB_no_sql)
qed

text \<open>The amended claim at a run with the argument \<open>notes.txt\<close> and the table \<open>vectors\<close>.\<close>

theorem embedModeDB_sql_only_witness:
  "flag_sql \<lparr>flag_table = ''vectors'', flag_sql = '''', flag_attach = []\<rparr> = '''' \<and>
   embedModeDB
     \<lparr>sql_Open = \<lambda>p. None, db_Exec = \<lambda>h s. None,
      db_Query = \<lambda>h q. Inr ([Values [''1'', ''hello'']], None),
      Sprintf_v = \<lambda>v :: string. v\<rparr>
     \<lparr>flag_table = ''vectors'', flag_sql = '''', flag_attach = []\<rparr> [''notes.txt''] ''store.db''
     = ([SqlOpen ''store.db'', DbExec (createTableStmt ''vectors'')], Inl (Panic ''only sql for now''))"
  using embedModeDB_sql_only [of "\<lparr>flag_table = ''vectors'', flag_sql = '''', flag_attach = []\<rparr>"
      "\<lparr>sql_Open = \<lambda>p. None, db_Exec = \<lambda>h s. None,
        db_Query = \<lambda>h q. Inr ([Values [''1'', ''hello'']], None), Sprintf_v = \<lambda>v :: string. v\<rparr>"
      "[''notes.txt'']" "''store.db''"]
  by simp

section \<open>The parts that \<open>prompt\<close> and \<open>template\<close> send\<close>

lemma readStdin_parts:
  "readStdin s promptParts = Inr ps \<Longrightarrow>
   (s = Terminal \<and> ps = promptParts) \<or> (\<exists>b. s = Piped (Inr b) \<and> ps = promptParts @ [Text b])"
  by (cases "(s, promptParts)" rule: readStdin.cases) auto

lemma runPromptCmd_Text:
  assumes "runPromptCmd env sysPrompt args = Inr ps" and "p \<in> set ps"
  shows "\<exists>t. p = Text t"
proof -
  let ?p1 = "if sysPrompt \<noteq> '''' then [Text sysPrompt] else []"
  from assms(1) obtain p2 where rd: "readStdin (os_Stdin env) ?p1 = Inr p2"
    and ps: "ps = (if length args \<ge> 1 then p2 @ [Text (args ! 0)] else p2)"
    by (auto simp: runPromptCmd_def Let_def split: sum.splits if_splits option.splits)
  from readStdin_parts [OF rd] have "\<forall>q\<in>set p2. \<exists>t. q = Text t"
    by (auto split: if_splits)
  with ps assms(2) show ?thesis
    by (auto split: if_splits)
qed

lemma argsLoop_sorts:
  "argsLoop env args promptParts textPrompt = Inr (pp, tp) \<Longrightarrow>
   tp = textPrompt @ filter (\<lambda>a. \<not> (argLooksLikeURL env a \<or> argLooksLikeFilename env a)) args \<and>
   map Inr pp = map Inr promptParts @
     map (\<lambda>a. if argLooksLikeURL env a then getPartFromURL env a else getPartFromFile env a)
       (filter (\<lambda>a. argLooksLikeURL env a \<or> argLooksLikeFilename env a) args)"
proof (induction args arbitrary: promptParts textPrompt)
  case Nil
  then show ?case by simp
next
  case (Cons arg args)
  show ?case
  proof (cases "argLooksLikeURL env arg")
    case True
    with Cons.prems obtain part where f: "getPartFromURL env arg = Inr part"
      and r: "argsLoop env args (promptParts @ [part]) textPrompt = Inr (pp, tp)"
      by (auto split: sum.splits)
    from Cons.IH [OF r] True f show ?thesis by simp
  next
    case False
    note nu = this
    show ?thesis
    proof (cases "argLooksLikeFilename env arg")
      case True
      with nu Cons.prems obtain part where f: "getPartFromFile env arg = Inr part"
        and r: "argsLoop env args (promptParts @ [part]) textPrompt = Inr (pp, tp)"
        by (auto split: sum.splits)
      from Cons.IH [OF r] True nu f show ?thesis by simp
    next
      case False
      with nu Cons.prems have r: "argsLoop env args promptParts (textPrompt @ [arg]) = Inr (pp, tp)"
        by simp
      from Cons.IH [OF r] False nu show ?thesis by simp
    qed
  qed
qed

lemma argsLoop_succeeds:
  "\<forall>a\<in>set args. (argLooksLikeURL env a \<longrightarrow> (\<exists>p. getPartFromURL env a = Inr p)) \<and>
      (\<not> argLooksLikeURL env a \<and> argLooksLikeFilename env a \<longrightarrow> (\<exists>p. getPartFromFile env a = Inr p)) \<Longrightarrow>
   \<exists>pp tp. argsLoop env args promptParts textPrompt = Inr (pp, tp)"
proof (induction args arbitrary: promptParts textPrompt)
  case Nil
  show ?case by simp
next
  case (Cons arg args)
  then have rest: "\<forall>a\<in>set args. (argLooksLikeURL env a \<longrightarrow> (\<exists>p. getPartFromURL env a = Inr p)) \<and>
      (\<not> argLooksLikeURL env a \<and> argLooksLikeFilename env a \<longrightarrow> (\<exists>p. getPartFromFile env a = Inr p))"
    by simp
  from Cons.prems have this_arg: "(argLooksLikeURL env arg \<longrightarrow> (\<exists>p. getPartFromURL env arg = Inr p)) \<and>
      (\<not> argLooksLikeURL env arg \<and> argLooksLikeFilename env arg \<longrightarrow> (\<exists>p. getPartFromFile env arg = Inr p))"
    by simp
  show ?case
  proof (cases "argLooksLikeURL env arg")
    case True
    with this_arg obtain p where "getPartFromURL env arg = Inr p" by blast
    with True Cons.IH [OF rest, of "promptParts @ [p]" textPrompt] show ?thesis by simp
  next
    case False
    note nu = this
    show ?thesis
    proof (cases "argLooksLikeFilename env arg")
      case True
      with nu this_arg obtain p where "getPartFromFile env arg = Inr p" by blast
      with True nu Cons.IH [OF rest, of "promptParts @ [p]" textPrompt] show ?thesis by simp
    next
      case False
      with nu Cons.IH [OF rest, of promptParts "textPrompt @ [arg]"] show ?thesis by simp
    qed
  qed
qed

lemma runTemplateCmd_use:
  assumes "\<not> flag_list cmd" and "\<not> (flag_add cmd \<noteq> '''' \<and> length args = 1)" and "flag_use cmd \<noteq> ''''"
  shows "runTemplateCmd env templates cmd args =
     (case argsLoop env args [] [] of
        Inl e \<Rightarrow> Inl e
      | Inr (promptParts, textPrompt) \<Rightarrow>
          (case newGenaiClient env of
             Some err \<Rightarrow> Inl (Fatal err)
           | None \<Rightarrow>
               (case (if flag_temp cmd \<noteq> '''' then ParseFloat env (flag_temp cmd) else None) of
                  Some err \<Rightarrow> Inl (Fatal (''problem parsing --temp value: '' @ err))
                | None \<Rightarrow>
                    Inr (Sent (promptParts @
                      [Text (fillLoop (case templates (flag_use cmd) of None \<Rightarrow> '''' | Some t \<Rightarrow> t)
                               (Count_pct_s (case templates (flag_use cmd) of None \<Rightarrow> '''' | Some t \<Rightarrow> t))
                               textPrompt)])))))"
proof -
  from assms(2) have "(if flag_add cmd \<noteq> [] \<and> length args = 1 then x else y) = y" for x y :: "error + outcome"
    by auto
  with assms(1,3) show ?thesis
    by (simp add: runTemplateCmd_def Let_def split: sum.splits option.splits prod.splits)
qed

section \<open>The claims about prompt parts\<close>

text \<open>
  Claim C10. The \<open>prompt\<close> command, once it has its API key, assembles the parts in a fixed
  order: the value of \<open>--system\<close> if it is not empty, then the whole of standard input if
  that is not a terminal, then the first positional argument if there is one. With no part
  at all the command aborts with the error \<open>expect a prompt from stdin and/or command-line
  argument\<close>; otherwise these parts are what is sent once the client is created. The
  positional arguments after the first are ignored.
\<close>

theorem runPromptCmd_parts:
  "(apikey_Get env = Inr key \<and> (os_Stdin env = Terminal \<or> os_Stdin env = Piped (Inr b)) \<longrightarrow>
      runPromptCmd env sysPrompt args =
        (let parts = (if sysPrompt \<noteq> '''' then [Text sysPrompt] else []) @
                     (if os_Stdin env = Terminal then [] else [Text b]) @
                     map Text (take 1 args)
         in if parts = [] then Inl (Fatal ''expect a prompt from stdin and/or command-line argument'')
            else (case genai_NewClient env key of
                    Some err \<Rightarrow> Inl (Fatal err)
                  | None \<Rightarrow> Inr parts))) \<and>
   runPromptCmd env sysPrompt (a # rest) = runPromptCmd env sysPrompt [a]"
proof (intro conjI impI; (elim conjE)?)
  assume key: "apikey_Get env = Inr key"
    and stdin: "os_Stdin env = Terminal \<or> os_Stdin env = Piped (Inr b)"
  from stdin show "runPromptCmd env sysPrompt args =
        (let parts = (if sysPrompt \<noteq> '''' then [Text sysPrompt] else []) @
                     (if os_Stdin env = Terminal then [] else [Text b]) @
                     map Text (take 1 args)
         in if parts = [] then Inl (Fatal ''expect a prompt from stdin and/or command-line argument'')
            else (case genai_NewClient env key of
                    Some err \<Rightarrow> Inl (Fatal err)
                  | None \<Rightarrow> Inr parts))"
  proof
    assume "os_Stdin env = Terminal"
    with key show ?thesis
      by (cases args) (simp_all add: runPromptCmd_def Let_def split: option.splits)
  next
    assume "os_Stdin env = Piped (Inr b)"
    with key show ?thesis
      by (cases args) (simp_all add: runPromptCmd_def Let_def split: option.splits)
  qed
next
  show "runPromptCmd env sysPrompt (a # rest) = runPromptCmd env sysPrompt [a]"
    by (simp add: runPromptCmd_def Let_def split: sum.splits)
qed

text \<open>
  The claim at a run with \<open>--system "be brief"\<close>, the text \<open>from stdin\<close> on standard input and
  the arguments \<open>first\<close> and \<open>second\<close>, and at a run on a terminal with nothing given.
\<close>

theorem runPromptCmd_parts_witness:
  "runPromptCmd \<lparr>apikey_Get = Inr ''k'', os_Stdin = Piped (Inr ''from stdin''), genai_NewClient = \<lambda>k. None\<rparr>
     ''be brief'' [''first'', ''second'']
     = Inr [Text ''be brief'', Text ''from stdin'', Text ''first''] \<and>
   runPromptCmd \<lparr>apikey_Get = Inr ''k'', os_Stdin = Terminal, genai_NewClient = \<lambda>k. None\<rparr> '''' []
     = Inl (Fatal ''expect a prompt from stdin and/or command-line argument'')"
proof -
  have 1: "runPromptCmd \<lparr>apikey_Get = Inr ''k'', os_Stdin = Piped (Inr ''from stdin''), genai_NewClient = \<lambda>k. None\<rparr>
     ''be brief'' [''first'', ''second'']
     = Inr [Text ''be brief'', Text ''from stdin'', Text ''first'']"
    using runPromptCmd_parts [of "\<lparr>apikey_Get = Inr ''k'', os_Stdin = Piped (Inr ''from stdin''),
        genai_NewClient = \<lambda>k. None\<rparr>" "''k''" "''from stdin''" "''be brief''" "[''first'', ''second'']"]
    by simp
  have 2: "runPromptCmd \<lparr>apikey_Get = Inr ''k'', os_Stdin = Terminal, genai_NewClient = \<lambda>k. None\<rparr> '''' []
     = Inl (Fatal ''expect a prompt from stdin and/or command-line argument'')"
    using runPromptCmd_parts [of "\<lparr>apikey_Get = Inr ''k'', os_Stdin = Terminal,
        genai_NewClient = \<lambda>k. None\<rparr>" "''k''" "''''" "''''" "[]"]
    by simp
  from 1 2 show ?thesis by simp
qed

text \<open>
  Claim C7 as the code has it. The claim says that every argument of a prompt-sending command
  that names an image file or an image URL is sent as an image part, and every other
  argument as a text part. In the first run below the argument is a URL by the program's own
  test, and the \<open>prompt\<close> command sends it as text. In the second, \<open>template --use t\<close> with
  the template \<open>say %s\<close> and the arguments \<open>a\<close> and \<open>b\<close> sends one text part, \<open>say a\<close>: the
  argument \<open>b\<close> is sent in no part.
\<close>

theorem prompt_sends_url_as_text:
  "argLooksLikeURL
     \<lparr>apikey_Get = Inr ''k'', os_Stdin = Terminal, genai_NewClient = \<lambda>k. None,
      argLooksLikeURL = \<lambda>a. a = ''https://example.com/cat.png'', argLooksLikeFilename = \<lambda>a. False,
      getPartFromURL = \<lambda>a. Inr (Blob ''image/png'' [1, 2]), getPartFromFile = \<lambda>a. Inl ''no such file'',
      newGenaiClient = None, ParseFloat = \<lambda>s. None, addTemplate = \<lambda>k v. None\<rparr>
     ''https://example.com/cat.png'' \<and>
   runPromptCmd
     \<lparr>apikey_Get = Inr ''k'', os_Stdin = Terminal, genai_NewClient = \<lambda>k. None,
      argLooksLikeURL = \<lambda>a. a = ''https://example.com/cat.png'', argLooksLikeFilename = \<lambda>a. False,
      getPartFromURL = \<lambda>a. Inr (Blob ''image/png'' [1, 2]), getPartFromFile = \<lambda>a. Inl ''no such file'',
      newGenaiClient = None, ParseFloat = \<lambda>s. None, addTemplate = \<lambda>k v. None\<rparr>
     '''' [''https://example.com/cat.png'']
     = Inr [Text ''https://example.com/cat.png''] \<and>
   runTemplateCmd
     \<lparr>apikey_Get = Inr ''k'', os_Stdin = Terminal, genai_NewClient = \<lambda>k. None,
      argLooksLikeURL = \<lambda>a. a = ''https://example.com/cat.png'', argLooksLikeFilename = \<lambda>a. False,
      getPartFromURL = \<lambda>a. Inr (Blob ''image/png'' [1, 2]), getPartFromFile = \<lambda>a. Inl ''no such file'',
      newGenaiClient = None, ParseFloat = \<lambda>s. None, addTemplate = \<lambda>k v. None\<rparr>
     [''t'' \<mapsto> ''say %s'']
     \<lparr>flag_list = False, flag_add = '''', flag_use = ''t'', flag_temp = ''''\<rparr>
     [''a'', ''b'']
     = Inr (Sent [Text ''say a''])"
  by (simp add: runPromptCmd_def runTemplateCmd_def)

text \<open>
  Claim C7, amended. A prompt part is text or image data referenced by a file path or a URL,
  and the two commands differ. The \<open>prompt\<close> command sends text parts only, whatever its
  inputs name, and \<open>template\<close> without \<open>--use\<close> does what \<open>prompt\<close> does with an empty
  \<open>--system\<close>. With \<open>template --use key\<close>, every argument that looks like a URL or like a
  file name is sent as the part fetched from that URL or file (the URL test comes first),
  these parts in argument order; the other arguments are sent in no part of their own: they
  fill the \<open>%s\<close> placeholders of the template, and the filled template is sent as one text
  part after the fetched parts. Such a run does send its parts when every fetch succeeds,
  the client is created and \<open>--temp\<close> is empty or parses.
\<close>

theorem template_parts:
  "(runPromptCmd env sysPrompt args = Inr parts \<longrightarrow> (\<forall>p\<in>set parts. \<exists>t. p = Text t)) \<and>
   (\<not> flag_list cmd \<and> \<not> (flag_add cmd \<noteq> '''' \<and> length args = 1) \<longrightarrow>
      (flag_use cmd = '''' \<longrightarrow>
         runTemplateCmd env templates cmd args =
           (case runPromptCmd env '''' args of Inl e \<Rightarrow> Inl e | Inr ps \<Rightarrow> Inr (Sent ps))) \<and>
      (flag_use cmd \<noteq> '''' \<longrightarrow>
         (runTemplateCmd env templates cmd args = Inr (Sent parts) \<longrightarrow>
            (\<exists>fetched.
               parts = fetched @
                 [Text (let template = (case templates (flag_use cmd) of None \<Rightarrow> '''' | Some t \<Rightarrow> t)
                        in fillLoop template (Count_pct_s template)
                             (filter (\<lambda>a. \<not> (argLooksLikeURL env a \<or> argLooksLikeFilename env a)) args))] \<and>
               map Inr fetched =
                 map (\<lambda>a. if argLooksLikeURL env a then getPartFromURL env a else getPartFromFile env a)
                   (filter (\<lambda>a. argLooksLikeURL env a \<or> argLooksLikeFilename env a) args))) \<and>
         ((\<forall>a\<in>set args.
             (argLooksLikeURL env a \<longrightarrow> (\<exists>p. getPartFromURL env a = Inr p)) \<and>
             (\<not> argLooksLikeURL env a \<and> argLooksLikeFilename env a \<longrightarrow> (\<exists>p. getPartFromFile env a = Inr p))) \<and>
          newGenaiClient env = None \<and>
          (flag_temp cmd = '''' \<or> ParseFloat env (flag_temp cmd) = None) \<longrightarrow>
            (\<exists>ps. runTemplateCmd env templates cmd args = Inr (Sent ps)))))"
proof (intro conjI impI ballI; (elim conjE)?)
  fix p
  assume "runPromptCmd env sysPrompt args = Inr parts" "p \<in> set parts"
  then show "\<exists>t. p = Text t" by (rule runPromptCmd_Text)
next
  assume "\<not> flag_list cmd" "\<not> (flag_add cmd \<noteq> '''' \<and> length args = 1)" "flag_use cmd = ''''"
  then show "runTemplateCmd env templates cmd args =
           (case runPromptCmd env '''' args of Inl e \<Rightarrow> Inl e | Inr ps \<Rightarrow> Inr (Sent ps))"
    by (auto simp: runTemplateCmd_def Let_def)
next
  assume disp: "\<not> flag_list cmd" "\<not> (flag_add cmd \<noteq> '''' \<and> length args = 1)" "flag_use cmd \<noteq> ''''"
    and run: "runTemplateCmd env templates cmd args = Inr (Sent parts)"
  let ?template = "case templates (flag_use cmd) of None \<Rightarrow> '''' | Some t \<Rightarrow> t"
  from run obtain pp tp where loop: "argsLoop env args [] [] = Inr (pp, tp)"
    and parts: "parts = pp @ [Text (fillLoop ?template (Count_pct_s ?template) tp)]"
    unfolding runTemplateCmd_use [OF disp]
    by (auto split: sum.splits option.splits if_splits)
  from argsLoop_sorts [OF loop] parts
  have "parts = pp @
      [Text (let template = ?template
             in fillLoop template (Count_pct_s template)
                  (filter (\<lambda>a. \<not> (argLooksLikeURL env a \<or> argLooksLikeFilename env a)) args))] \<and>
     map Inr pp =
       map (\<lambda>a. if argLooksLikeURL env a then getPartFromURL env a else getPartFromFile env a)
         (filter (\<lambda>a. argLooksLikeURL env a \<or> argLooksLikeFilename env a) args)"
    by (simp add: Let_def)
  then show "\<exists>fetched.
               parts = fetched @
                 [Text (let template = ?template
                        in fillLoop template (Count_pct_s template)
                             (filter (\<lambda>a. \<not> (argLooksLikeURL env a \<or> argLooksLikeFilename env a)) args))] \<and>
               map Inr fetched =
                 map (\<lambda>a. if argLooksLikeURL env a then getPartFromURL env a else getPartFromFile env a)
                   (filter (\<lambda>a. argLooksLikeURL env a \<or> argLooksLikeFilename env a) args)"
    by blast
next
  assume disp: "\<not> flag_list cmd" "\<not> (flag_add cmd \<noteq> '''' \<and> length args = 1)" "flag_use cmd \<noteq> ''''"
    and fetch: "\<forall>a\<in>set args.
             (argLooksLikeURL env a \<longrightarrow> (\<exists>p. getPartFromURL env a = Inr p)) \<and>
             (\<not> argLooksLikeURL env a \<and> argLooksLikeFilename env a \<longrightarrow> (\<exists>p. getPartFromFile env a = Inr p))"
    and client: "newGenaiClient env = None"
    and temp: "flag_temp cmd = '''' \<or> ParseFloat env (flag_temp cmd) = None"
  from argsLoop_succeeds [OF fetch, of "[]" "[]"]
  obtain pp tp where loop: "argsLoop env args [] [] = Inr (pp, tp)" by blast
  from temp have "(if flag_temp cmd \<noteq> '''' then ParseFloat env (flag_temp cmd) else None) = None"
    by auto
  then show "\<exists>ps. runTemplateCmd env templates cmd args = Inr (Sent ps)"
    unfolding runTemplateCmd_use [OF disp] loop client by simp
qed

text \<open>
  The amended claim at \<open>template --use t\<close> with the template \<open>compare %s with %s\<close> and the
  arguments \<open>this\<close>, a URL, \<open>that\<close>, a file name and \<open>extra\<close>: two fetched parts and one
  text part, \<open>compare this with that\<close>, are sent; and at \<open>prompt\<close> with the same arguments,
  which sends the first of them as text.
\<close>

theorem template_parts_witness:
  "runTemplateCmd
     \<lparr>apikey_Get = Inr ''k'', os_Stdin = Terminal, genai_NewClient = \<lambda>k. None,
      argLooksLikeURL = \<lambda>a. a = ''https://example.com/cat.png'', argLooksLikeFilename = \<lambda>a. a = ''dog.jpg'',
      getPartFromURL = \<lambda>a. Inr (Blob ''image/png'' [1, 2]), getPartFromFile = \<lambda>a. Inr (Blob ''image/jpeg'' [3]),
      newGenaiClient = None, ParseFloat = \<lambda>s. None, addTemplate = \<lambda>k v. None\<rparr>
     [''t'' \<mapsto> ''compare %s with %s'']
     \<lparr>flag_list = False, flag_add = '''', flag_use = ''t'', flag_temp = ''''\<rparr>
     [''this'', ''https://example.com/cat.png'', ''that'', ''dog.jpg'', ''extra'']
     = Inr (Sent [Blob ''image/png'' [1, 2], Blob ''image/jpeg'' [3], Text ''compare this with that'']) \<and>
   runPromptCmd
     \<lparr>apikey_Get = Inr ''k'', os_Stdin = Terminal, genai_NewClient = \<lambda>k. None,
      argLooksLikeURL = \<lambda>a. a = ''https://example.com/cat.png'', argLooksLikeFilename = \<lambda>a. a = ''dog.jpg'',
      getPartFromURL = \<lambda>a. Inr (Blob ''image/png'' [1, 2]), getPartFromFile = \<lambda>a. Inr (Blob ''image/jpeg'' [3]),
      newGenaiClient = None, ParseFloat = \<lambda>s. None, addTemplate = \<lambda>k v. None\<rparr>
     '''' [''this'', ''https://example.com/cat.png'', ''that'', ''dog.jpg'', ''extra'']
     = Inr [Text ''this'']"
proof -
  let ?env = "\<lparr>apikey_Get = Inr ''k'', os_Stdin = Terminal, genai_NewClient = \<lambda>k. None,
      argLooksLikeURL = \<lambda>a. a = ''https://example.com/cat.png'', argLooksLikeFilename = \<lambda>a. a = ''dog.jpg'',
      getPartFromURL = \<lambda>a. Inr (Blob ''image/png'' [1, 2]), getPartFromFile = \<lambda>a. Inr (Blob ''image/jpeg'' [3]),
      newGenaiClient = None, ParseFloat = \<lambda>s. None, addTemplate = \<lambda>k v. None\<rparr>"
  let ?templates = "[''t'' \<mapsto> ''compare %s with %s'']"
  let ?cmd = "\<lparr>flag_list = False, flag_add = '''', flag_use = ''t'', flag_temp = ''''\<rparr>"
  let ?args = "[''this'', ''https://example.com/cat.png'', ''that'', ''dog.jpg'', ''extra'']"
  let ?parts = "[Blob ''image/png'' [1, 2], Blob ''image/jpeg'' [3], Text ''compare this with that'']"
  have run: "runTemplateCmd ?env ?templates ?cmd ?args = Inr (Sent ?parts)"
    by (simp add: runTemplateCmd_def)
  have prompt: "runPromptCmd ?env '''' ?args = Inr [Text ''this'']"
    by (simp add: runPromptCmd_def)
  note inst = template_parts [of ?env "''''" ?args "[Text ''this'']" ?cmd ?templates]
  from inst [THEN conjunct1, THEN mp, OF prompt]
  have only_text: "\<forall>p\<in>set [Text ''this'']. \<exists>t. p = Text t" .
  have disp: "\<not> flag_list ?cmd \<and> \<not> (flag_add ?cmd \<noteq> '''' \<and> length ?args = 1)"
    and use: "flag_use ?cmd \<noteq> ''''"
    by simp_all
  note inst' = template_parts [of ?env "''''" ?args ?parts ?cmd ?templates,
      THEN conjunct2, THEN mp, OF disp, THEN conjunct2, THEN mp, OF use]
  from inst' [THEN conjunct1, THEN mp, OF run]
  have "\<exists>fetched.
      ?parts = fetched @
        [Text (let template = (case ?templates (flag_use ?cmd) of None \<Rightarrow> '''' | Some t \<Rightarrow> t)
               in fillLoop template (Count_pct_s template)
                    (filter (\<lambda>a. \<not> (argLooksLikeURL ?env a \<or> argLooksLikeFilename ?env a)) ?args))] \<and>
      map Inr fetched =
        map (\<lambda>a. if argLooksLikeURL ?env a then getPartFromURL ?env a else getPartFromFile ?env a)
          (filter (\<lambda>a. argLooksLikeURL ?env a \<or> argLooksLikeFilename ?env a) ?args)" .
  with only_text run prompt show ?thesis by simp
qed

end
